theory Spec2Isabelle
  imports Complex_Main
begin

section \<open>The values of the language\<close>

text \<open>
  The program is a JavaScript (ESM) module, \<open>index.js\<close>: three Express route handlers that
  reshape JSON between an HTTP caller and one upstream GraphQL endpoint. Its data are the
  dynamically typed values of the language, so the embedding starts with them.

  A number is an IEEE-754 double. The finite ones are kept as the rational they denote,
  and every operation that can produce a new finite value (reading a numeric literal out
  of a string, addition) rounds its exact result with \<open>round64\<close>, to nearest, ties to
  even, with gradual underflow and overflow to infinity. The two zeros are one value: the
  program never divides and its output is JSON, where they cannot be told apart.
\<close>

datatype jsnum = NaN | PInf | NInf | Fin rat

text \<open>
  A string is the list of its code units; a \<open>char\<close> stands for a code unit below 256.
  An array is the list of its elements, and an object the list of its own properties, a
  name at most once, as \<open>JSON.parse\<close> and the query parser build them.
\<close>

datatype jsval =
    JUndefined
  | JNull
  | JBool bool
  | JNum jsnum
  | JStr string
  | JArr "jsval list"
  | JObj "(string \<times> jsval) list"

subsection \<open>Rounding to a double\<close>

text \<open>\<open>ilen b x\<close> is the number of base-\<open>b\<close> digits of a positive integer.\<close>

function ilen :: "int \<Rightarrow> int \<Rightarrow> int" where
  "ilen b x = (if 0 < x \<and> 1 < b then ilen b (x div b) + 1 else 0)"
  by pat_completeness auto
termination
  by (relation "measure (\<lambda>(b, x). nat x)") (auto intro!: int_div_less_self)

declare ilen.simps [simp del]

text \<open>For a positive rational, the exponent \<open>e\<close> with \<open>b ^ e \<le> q < b ^ (e + 1)\<close>.\<close>

definition ilog :: "int \<Rightarrow> rat \<Rightarrow> int" where
  "ilog b q = (let (n, d) = quotient_of q; e = ilen b n - ilen b d
               in if of_int b powi e \<le> q then e else e - 1)"

definition round_half_even :: "rat \<Rightarrow> int" where
  "round_half_even x = (let f = \<lfloor>x\<rfloor>; r = x - of_int f
     in if r < 1 / 2 then f else if 1 / 2 < r then f + 1 else if even f then f else f + 1)"

definition round64 :: "rat \<Rightarrow> jsnum" where
  "round64 q = (if q = 0 then Fin 0 else
     let a = \<bar>q\<bar>; e = max (ilog 2 a) (- 1022); ulp = 2 powi (e - 52);
         r = of_int (round_half_even (a / ulp)) * ulp
     in if 2 ^ 1024 \<le> r then (if q < 0 then NInf else PInf)
        else Fin (if q < 0 then - r else r))"

subsection \<open>Strings to numbers\<close>

text \<open>
  \<open>Number(s)\<close> on a string: white space is trimmed, the empty string is 0, and what is
  left must be one numeric literal of the language's \<open>StringNumericLiteral\<close> grammar: a
  signed decimal literal (digits, a fraction, an exponent, or \<open>Infinity\<close>) or an
  unsigned binary, octal or hexadecimal integer. Anything else is \<open>NaN\<close>.
\<close>

datatype mathval = NotNumeric | Infinite | Finite rat

definition is_ws :: "char \<Rightarrow> bool" where
  "is_ws c = ((of_char c :: nat) \<in> set [9, 10, 11, 12, 13, 32, 160])"

definition trim :: "string \<Rightarrow> string" where
  "trim s = rev (dropWhile is_ws (rev (dropWhile is_ws s)))"

definition digit_of :: "char \<Rightarrow> int option" where
  "digit_of c = (let n = (of_char c :: int) in
     if 48 \<le> n \<and> n \<le> 57 then Some (n - 48)
     else if 97 \<le> n \<and> n \<le> 102 then Some (n - 87)
     else if 65 \<le> n \<and> n \<le> 70 then Some (n - 55)
     else None)"

definition is_digit :: "int \<Rightarrow> char \<Rightarrow> bool" where
  "is_digit base c = (case digit_of c of Some d \<Rightarrow> d < base | None \<Rightarrow> False)"

definition digits_value :: "int \<Rightarrow> string \<Rightarrow> int" where
  "digits_value base ds =
     foldl (\<lambda>a c. a * base + (case digit_of c of Some d \<Rightarrow> d | None \<Rightarrow> 0)) 0 ds"

definition ExponentPart :: "string \<Rightarrow> int option" where
  "ExponentPart s = (case s of
       [] \<Rightarrow> Some 0
     | c # t \<Rightarrow>
         if c = CHR ''e'' \<or> c = CHR ''E'' then
           (let (neg, ds) = (case t of
                    [] \<Rightarrow> (False, [])
                  | d # u \<Rightarrow> if d = CHR ''+'' then (False, u)
                             else if d = CHR ''-'' then (True, u) else (False, t))
            in if ds \<noteq> [] \<and> list_all (is_digit 10) ds
               then Some (if neg then - digits_value 10 ds else digits_value 10 ds)
               else None)
         else None)"

definition StrUnsignedDecimalLiteral :: "string \<Rightarrow> mathval" where
  "StrUnsignedDecimalLiteral s =
     (if s = ''Infinity'' then Infinite else
      let ip = takeWhile (is_digit 10) s; r1 = dropWhile (is_digit 10) s;
          (fp, r2) = (case r1 of
               [] \<Rightarrow> ([], [])
             | c # t \<Rightarrow> if c = CHR ''.''
                        then (takeWhile (is_digit 10) t, dropWhile (is_digit 10) t)
                        else ([], r1))
      in if ip = [] \<and> fp = [] then NotNumeric
         else (case ExponentPart r2 of
                 None \<Rightarrow> NotNumeric
               | Some e \<Rightarrow>
                   Finite (of_int (digits_value 10 (ip @ fp)) * 10 powi (e - int (length fp)))))"

definition NonDecimalIntegerLiteral :: "string \<Rightarrow> mathval" where
  "NonDecimalIntegerLiteral s = (case s of
       z # c # ds \<Rightarrow>
         (let base = (if c = CHR ''x'' \<or> c = CHR ''X'' then 16
                      else if c = CHR ''o'' \<or> c = CHR ''O'' then 8
                      else if c = CHR ''b'' \<or> c = CHR ''B'' then 2 else 0)
          in if z = CHR ''0'' \<and> base \<noteq> 0 \<and> ds \<noteq> [] \<and> list_all (is_digit base) ds
             then Finite (of_int (digits_value base ds)) else NotNumeric)
     | _ \<Rightarrow> NotNumeric)"

definition StringToNumber :: "string \<Rightarrow> jsnum" where
  "StringToNumber s = (let t = trim s in
     if t = [] then Fin 0
     else (case NonDecimalIntegerLiteral t of
             Finite q \<Rightarrow> round64 q
           | Infinite \<Rightarrow> PInf
           | NotNumeric \<Rightarrow>
               (let (neg, u) = (if hd t = CHR ''+'' then (False, tl t)
                                else if hd t = CHR ''-'' then (True, tl t) else (False, t))
                in case StrUnsignedDecimalLiteral u of
                     NotNumeric \<Rightarrow> NaN
                   | Infinite \<Rightarrow> (if neg then NInf else PInf)
                   | Finite q \<Rightarrow> round64 (if neg then - q else q))))"

subsection \<open>Numbers to strings\<close>

text \<open>
  \<open>String(x)\<close> on a number prints the shortest decimal numeral that reads back as \<open>x\<close>
  (the closest one when several do), in positional notation for 21 integer digits or
  fewer and down to six leading zeros, in exponent notation otherwise.
\<close>

function digits10 :: "int \<Rightarrow> string" where
  "digits10 n = (if n < 10 then [''0123456789'' ! nat n]
                 else digits10 (n div 10) @ [''0123456789'' ! nat (n mod 10)])"
  by pat_completeness auto
termination
  by (relation "measure nat") (auto intro!: int_div_less_self)

declare digits10.simps [simp del]

definition candidate :: "rat \<Rightarrow> int \<Rightarrow> int \<Rightarrow> (int \<times> string) option" where
  "candidate x n k = (let scale = 10 powi (n - k); t = x / scale; lo = \<lfloor>t\<rfloor>; hi = lo + 1;
       okl = (round64 (of_int lo * scale) = Fin x);
       okh = (round64 (of_int hi * scale) = Fin x);
       pick_hi = (okh \<and> (\<not> okl \<or> of_int hi - t < t - of_int lo
                        \<or> (of_int hi - t = t - of_int lo \<and> even hi)))
     in if pick_hi then (if hi = 10 ^ nat k then Some (n + 1, ''1'') else Some (n, digits10 hi))
        else if okl then Some (n, digits10 lo) else None)"

fun shortest :: "rat \<Rightarrow> int \<Rightarrow> nat \<Rightarrow> int \<Rightarrow> int \<times> string" where
  "shortest x n 0 k = (case candidate x n k of
       Some r \<Rightarrow> r | None \<Rightarrow> (n, digits10 \<lfloor>x / 10 powi (n - k)\<rfloor>))"
| "shortest x n (Suc fuel) k = (case candidate x n k of
       Some r \<Rightarrow> r | None \<Rightarrow> shortest x n fuel (k + 1))"

definition positive_to_string :: "rat \<Rightarrow> string" where
  "positive_to_string x = (let (n, ds) = shortest x (ilog 10 x + 1) 16 1; k = int (length ds)
     in if k \<le> n \<and> n \<le> 21 then ds @ replicate (nat (n - k)) CHR ''0''
        else if 0 < n \<and> n \<le> 21 then take (nat n) ds @ ''.'' @ drop (nat n) ds
        else if - 6 < n \<and> n \<le> 0 then ''0.'' @ replicate (nat (- n)) CHR ''0'' @ ds
        else (let e = n - 1; es = (if e < 0 then ''-'' else ''+'') @ digits10 \<bar>e\<bar>
              in if k = 1 then ds @ ''e'' @ es else hd ds # ''.'' @ tl ds @ ''e'' @ es))"

definition NumberToString :: "jsnum \<Rightarrow> string" where
  "NumberToString x = (case x of
       NaN \<Rightarrow> ''NaN''
     | PInf \<Rightarrow> ''Infinity''
     | NInf \<Rightarrow> ''-Infinity''
     | Fin q \<Rightarrow> if q = 0 then ''0''
                else if q < 0 then ''-'' @ positive_to_string (- q)
                else positive_to_string q)"

subsection \<open>Errors\<close>

text \<open>What the program can throw, and what its \<open>catch\<close> blocks look at.\<close>

datatype thrown =
    TypeError
  | Error string
  | AxiosError string "(nat \<times> jsval) option"

definition bind_thrown :: "thrown + 'a \<Rightarrow> ('a \<Rightarrow> thrown + 'b) \<Rightarrow> thrown + 'b" where
  "bind_thrown m f = (case m of Inl e \<Rightarrow> Inl e | Inr x \<Rightarrow> f x)"

text \<open>
  \<open>xs.map(f)\<close> and \<open>xs.reduce(f, init)\<close> on the elements of an array, \<open>f\<close> a callback that
  may throw: the first call that throws ends the loop.
\<close>

fun map_throwing :: "('a \<Rightarrow> thrown + 'b) \<Rightarrow> 'a list \<Rightarrow> thrown + 'b list" where
  "map_throwing f [] = Inr []"
| "map_throwing f (x # xs) = (case f x of
       Inl e \<Rightarrow> Inl e
     | Inr y \<Rightarrow> (case map_throwing f xs of Inl e \<Rightarrow> Inl e | Inr ys \<Rightarrow> Inr (y # ys)))"

fun reduce_throwing :: "('b \<Rightarrow> 'a \<Rightarrow> thrown + 'b) \<Rightarrow> 'b \<Rightarrow> 'a list \<Rightarrow> thrown + 'b" where
  "reduce_throwing f acc [] = Inr acc"
| "reduce_throwing f acc (x # xs) = (case f acc x of
       Inl e \<Rightarrow> Inl e
     | Inr acc' \<Rightarrow> reduce_throwing f acc' xs)"

subsection \<open>Conversions and operators\<close>

text \<open>\<open>Array.prototype.join\<close> on strings.\<close>

fun join :: "string \<Rightarrow> string list \<Rightarrow> string" where
  "join sep [] = []"
| "join sep [x] = x"
| "join sep (x # y # ys) = x @ sep @ join sep (y # ys)"

text \<open>
  \<open>String(v)\<close> and the conversion a template literal applies. An array prints its
  elements joined by commas, \<open>null\<close> and \<open>undefined\<close> elements as nothing. A plain object
  prints as \<open>[object Object]\<close>, through the \<open>toString\<close> it inherits; when it has an own
  property \<open>toString\<close> (the values here are data, none is callable), the conversion finds
  no method that returns a primitive and throws a \<open>TypeError\<close>. So does the conversion of
  an array that holds such an object.
\<close>

fun ToString :: "jsval \<Rightarrow> thrown + string"
  and element_strings :: "jsval list \<Rightarrow> thrown + string list" where
  "ToString JUndefined = Inr ''undefined''"
| "ToString JNull = Inr ''null''"
| "ToString (JBool b) = Inr (if b then ''true'' else ''false'')"
| "ToString (JNum n) = Inr (NumberToString n)"
| "ToString (JStr s) = Inr s"
| "ToString (JArr xs) = (case element_strings xs of
       Inl e \<Rightarrow> Inl e
     | Inr ss \<Rightarrow> Inr (join '','' ss))"
| "ToString (JObj kvs) = (case map_of kvs ''toString'' of
       Some m \<Rightarrow> Inl TypeError
     | None \<Rightarrow> Inr ''[object Object]'')"
| "element_strings [] = Inr []"
| "element_strings (x # xs) =
     (case (if x = JUndefined \<or> x = JNull then Inr [] else ToString x) of
        Inl e \<Rightarrow> Inl e
      | Inr s \<Rightarrow> (case element_strings xs of Inl e \<Rightarrow> Inl e | Inr ss \<Rightarrow> Inr (s # ss)))"

text \<open>
  The conversion of an array or object to a primitive, as \<open>Number\<close> and \<open>+\<close> apply it:
  the inherited \<open>valueOf\<close> returns the object itself, so the result is the string above,
  or the same \<open>TypeError\<close>.
\<close>

fun ToPrimitive :: "jsval \<Rightarrow> thrown + jsval" where
  "ToPrimitive (JArr xs) = bind_thrown (ToString (JArr xs)) (\<lambda>s. Inr (JStr s))"
| "ToPrimitive (JObj kvs) = bind_thrown (ToString (JObj kvs)) (\<lambda>s. Inr (JStr s))"
| "ToPrimitive v = Inr v"

text \<open>\<open>Number(v)\<close>.\<close>

fun ToNumber :: "jsval \<Rightarrow> thrown + jsnum" where
  "ToNumber JUndefined = Inr NaN"
| "ToNumber JNull = Inr (Fin 0)"
| "ToNumber (JBool b) = Inr (Fin (if b then 1 else 0))"
| "ToNumber (JNum n) = Inr n"
| "ToNumber (JStr s) = Inr (StringToNumber s)"
| "ToNumber (JArr xs) = bind_thrown (ToString (JArr xs)) (\<lambda>s. Inr (StringToNumber s))"
| "ToNumber (JObj kvs) = bind_thrown (ToString (JObj kvs)) (\<lambda>s. Inr (StringToNumber s))"

text \<open>What \<open>if (v)\<close>, \<open>!v\<close> and \<open>||\<close> test.\<close>

fun truthy :: "jsval \<Rightarrow> bool" where
  "truthy JUndefined = False"
| "truthy JNull = False"
| "truthy (JBool b) = b"
| "truthy (JNum n) = (n \<noteq> NaN \<and> n \<noteq> Fin 0)"
| "truthy (JStr s) = (s \<noteq> [])"
| "truthy (JArr xs) = True"
| "truthy (JObj kvs) = True"

definition nullish :: "jsval \<Rightarrow> bool" where
  "nullish v = (v = JUndefined \<or> v = JNull)"

text \<open>\<open>a || b\<close> and \<open>a ?? b\<close>.\<close>

definition js_or :: "jsval \<Rightarrow> jsval \<Rightarrow> jsval" where
  "js_or a b = (if truthy a then a else b)"

definition js_coalesce :: "jsval \<Rightarrow> jsval \<Rightarrow> jsval" where
  "js_coalesce a b = (if nullish a then b else a)"

text \<open>
  Reading a property. \<open>js_member v k\<close> is the read on a value that is neither \<open>null\<close> nor
  \<open>undefined\<close>: an own property of an object, the \<open>length\<close> of an array or a string,
  \<open>undefined\<close> otherwise (none of the names the program reads is inherited from a
  prototype, but for the methods \<open>map\<close> and \<open>reduce\<close>, which are modelled as calls below).
  \<open>get\<close> is \<open>v.k\<close>, which throws on \<open>null\<close> and \<open>undefined\<close>; \<open>opt\<close> is \<open>v?.k\<close>.
\<close>

definition js_member :: "jsval \<Rightarrow> string \<Rightarrow> jsval" where
  "js_member v k = (case v of
       JObj kvs \<Rightarrow> (case map_of kvs k of Some x \<Rightarrow> x | None \<Rightarrow> JUndefined)
     | JArr xs \<Rightarrow> if k = ''length'' then JNum (Fin (of_nat (length xs))) else JUndefined
     | JStr s \<Rightarrow> if k = ''length'' then JNum (Fin (of_nat (length s))) else JUndefined
     | _ \<Rightarrow> JUndefined)"

definition get :: "jsval \<Rightarrow> string \<Rightarrow> thrown + jsval" where
  "get v k = (if nullish v then Inl TypeError else Inr (js_member v k))"

definition opt :: "jsval \<Rightarrow> string \<Rightarrow> jsval" where
  "opt v k = (if nullish v then JUndefined else js_member v k)"

text \<open>
  Addition of doubles, and the operator \<open>+\<close>: both sides are converted to primitives, left
  first; it concatenates when either is then a string, and adds numbers otherwise.
\<close>

fun num_add :: "jsnum \<Rightarrow> jsnum \<Rightarrow> jsnum" where
  "num_add NaN y = NaN"
| "num_add x NaN = NaN"
| "num_add PInf NInf = NaN"
| "num_add NInf PInf = NaN"
| "num_add PInf y = PInf"
| "num_add NInf y = NInf"
| "num_add x PInf = PInf"
| "num_add x NInf = NInf"
| "num_add (Fin a) (Fin b) = round64 (a + b)"

fun is_string :: "jsval \<Rightarrow> bool" where
  "is_string (JStr s) = True"
| "is_string v = False"

definition js_plus :: "jsval \<Rightarrow> jsval \<Rightarrow> thrown + jsval" where
  "js_plus a b =
     bind_thrown (ToPrimitive a) (\<lambda>l.
     bind_thrown (ToPrimitive b) (\<lambda>r.
       if is_string l \<or> is_string r
       then bind_thrown (ToString l) (\<lambda>s.
            bind_thrown (ToString r) (\<lambda>t. Inr (JStr (s @ t))))
       else bind_thrown (ToNumber l) (\<lambda>x.
            bind_thrown (ToNumber r) (\<lambda>y. Inr (JNum (num_add x y))))))"

text \<open>\<open>Math.min\<close> of two arguments: \<open>NaN\<close> if either is, the smaller otherwise.\<close>

fun num_less :: "jsnum \<Rightarrow> jsnum \<Rightarrow> bool" where
  "num_less NaN y = False"
| "num_less x NaN = False"
| "num_less x NInf = False"
| "num_less NInf y = True"
| "num_less PInf y = False"
| "num_less x PInf = True"
| "num_less (Fin a) (Fin b) = (a < b)"

definition Math_min :: "jsval \<Rightarrow> jsval \<Rightarrow> thrown + jsnum" where
  "Math_min a b =
     bind_thrown (ToNumber a) (\<lambda>x.
     bind_thrown (ToNumber b) (\<lambda>y.
       Inr (if x = NaN \<or> y = NaN then NaN else if num_less y x then y else x)))"

text \<open>\<open>s.startsWith(p)\<close>.\<close>

definition startsWith :: "string \<Rightarrow> string \<Rightarrow> bool" where
  "startsWith s p = (take (length p) s = p)"

text \<open>
  \<open>v.map(f)\<close>: the value must be an array (nothing else the program can hold has a
  \<open>map\<close> method, and calling \<open>undefined\<close> throws).
\<close>

definition js_map :: "(jsval \<Rightarrow> thrown + jsval) \<Rightarrow> jsval \<Rightarrow> thrown + jsval" where
  "js_map f v = (case v of
       JArr xs \<Rightarrow> (case map_throwing f xs of Inl e \<Rightarrow> Inl e | Inr ys \<Rightarrow> Inr (JArr ys))
     | _ \<Rightarrow> Inl TypeError)"

section \<open>The program\<close>

subsection \<open>Helpers\<close>

text \<open>
  \<^verbatim>\<open>function toGid(type, idOrGid) {
    const s = String(idOrGid);
    if (s.startsWith('gid://')) return s;
    return `gid://shopify/${type}/${s}`;
  }\<close>
\<close>

definition toGid :: "jsval \<Rightarrow> jsval \<Rightarrow> thrown + string" where
  "toGid type idOrGid =
     bind_thrown (ToString idOrGid) (\<lambda>s.
       if startsWith s ''gid://'' then Inr s
       else bind_thrown (ToString type) (\<lambda>t. Inr (''gid://shopify/'' @ t @ ''/'' @ s)))"

text \<open>
  The three GraphQL documents are constants of the module; the program only passes them
  on. \<open>LIST_DRAFTS\<close> asks for \<open>draftOrders(first: $first, query: $query, ...)\<close> with
  \<open>lineItems(first: 1)\<close> on each node, \<open>DRAFT_FOR_PICK\<close> for \<open>draftOrder(id: $id)\<close> with
  \<open>lineItems(first: 250)\<close>, \<open>COMPLETE_DRAFT\<close> for the mutation
  \<open>draftOrderComplete(id: $id, paymentPending: $paymentPending)\<close>.
\<close>

datatype gql_doc = LIST_DRAFTS | DRAFT_FOR_PICK | COMPLETE_DRAFT

text \<open>
  The upstream service is the environment of the program: \<open>axios.post\<close> either resolves
  with a response whose \<open>data\<close> is the parsed body, or rejects, with an \<open>err.message\<close>
  and, when the service answered outside 2xx, an \<open>err.response\<close> (status and body).
  A handler posts at most one request, so a function from the request to its outcome
  stands for any behaviour of the service.
  What the program does to the world is recorded: the requests it posts (document and
  variables, as the values handed to \<open>axios.post\<close>; URL, headers and the 15 s timeout are
  constants) and what it writes with \<open>console.error\<close>.
\<close>

datatype axios_result = Resolved jsval | Rejected string "(nat \<times> jsval) option"

type_synonym upstream = "gql_doc \<Rightarrow> jsval \<Rightarrow> axios_result"

datatype log_entry =
    LogTopLevelErrors jsval
  | LogHTTP nat jsval
  | LogERR thrown

record effects =
  requests :: "(gql_doc \<times> jsval) list"
  console :: "log_entry list"

text \<open>
  The request body goes out as JSON (\<open>Content-Type: application/json\<close>), and JSON has no
  numeral for a number that is not finite: \<open>JSON.stringify\<close> writes \<open>null\<close> for it.
  \<open>wire_number\<close> is what the receiver reads where the program put a number.
\<close>

definition wire_number :: "jsnum \<Rightarrow> jsval" where
  "wire_number n = (case n of Fin x \<Rightarrow> JNum (Fin x) | _ \<Rightarrow> JNull)"

text \<open>The \<open>catch\<close> block of \<open>shopifyGraphQL\<close>: it logs and throws the error again.\<close>

definition log_caught :: "thrown \<Rightarrow> effects \<Rightarrow> effects" where
  "log_caught err w = (case err of
       AxiosError msg (Some (st, d)) \<Rightarrow> w\<lparr>console := console w @ [LogHTTP st d]\<rparr>
     | _ \<Rightarrow> w\<lparr>console := console w @ [LogERR err]\<rparr>)"

definition shopifyGraphQL ::
    "upstream \<Rightarrow> gql_doc \<Rightarrow> jsval \<Rightarrow> effects \<Rightarrow> (thrown + jsval) \<times> effects" where
  "shopifyGraphQL post query variables0 w =
     (let variables = (if variables0 = JUndefined then JObj [] else variables0);
          w1 = w\<lparr>requests := requests w @ [(query, variables)]\<rparr>
      in case post query variables of
           Rejected msg response \<Rightarrow>
             (Inl (AxiosError msg response), log_caught (AxiosError msg response) w1)
         | Resolved data \<Rightarrow>
             (case get data ''errors'' of
                Inl err \<Rightarrow> (Inl err, log_caught err w1)
              | Inr errors \<Rightarrow>
                  if truthy errors
                  then (Inl (Error ''GraphQL errors''),
                        log_caught (Error ''GraphQL errors'')
                          (w1\<lparr>console := console w1 @ [LogTopLevelErrors errors]\<rparr>))
                  else (Inr (js_member data ''data''), w1)))"

text \<open>
  \<^verbatim>\<open>function buildDraftQuery({ since, until }) {
    const parts = [];
    if (since) parts.push(`created_at:>=${since}`);
    if (until) parts.push(`created_at:<=${until}`);
    parts.push('status:open');
    return parts.join(' ');
  }\<close>
  Each template literal converts its parameter to a string, which can throw.
\<close>

definition buildDraftQuery :: "jsval \<Rightarrow> jsval \<Rightarrow> thrown + string" where
  "buildDraftQuery since until =
     bind_thrown
       (if truthy since
        then bind_thrown (ToString since) (\<lambda>s. Inr ([] @ [''created_at:>='' @ s]))
        else Inr [])
       (\<lambda>parts1.
     bind_thrown
       (if truthy until
        then bind_thrown (ToString until) (\<lambda>u. Inr (parts1 @ [''created_at:<='' @ u]))
        else Inr parts1)
       (\<lambda>parts2. Inr (join '' '' (parts2 @ [''status:open'']))))"

subsection \<open>Routes\<close>

text \<open>
  A handler answers with a status and the value it hands to \<open>res.json\<close>. Each handler is
  one \<open>try\<close> block, whose \<open>catch\<close> answers 500.
\<close>

record response =
  status :: nat
  body :: jsval

definition json_response :: "nat \<Rightarrow> jsval \<Rightarrow> response" where
  "json_response st v = \<lparr>status = st, body = v\<rparr>"

definition try_catch ::
    "(thrown + response) \<times> effects \<Rightarrow> (thrown \<Rightarrow> thrown + response)
       \<Rightarrow> (thrown + response) \<times> effects" where
  "try_catch r handler = (case fst r of Inl e \<Rightarrow> (handler e, snd r) | Inr x \<Rightarrow> (Inr x, snd r))"

text \<open>
  \<open>GET /api/pick/drafts\<close>: the value sent as \<open>first\<close>,
  \<open>Math.min(Number(first) || 25, 250)\<close>, and the callbacks of \<open>reduce\<close> and \<open>map\<close>.
\<close>

definition first_variable :: "jsval \<Rightarrow> thrown + jsnum" where
  "first_variable first =
     bind_thrown (ToNumber first) (\<lambda>n.
       Math_min (js_or (JNum n) (JNum (Fin 25))) (JNum (Fin 250)))"

definition add_quantity :: "jsval \<Rightarrow> jsval \<Rightarrow> thrown + jsval" where
  "add_quantity n e = js_plus n (js_or (opt (opt e ''node'') ''quantity'') (JNum (Fin 0)))"

definition totalLinesHint :: "jsval \<Rightarrow> thrown + jsval" where
  "totalLinesHint node = bind_thrown (get node ''lineItems'') (\<lambda>lineItems.
     let edges = opt lineItems ''edges''
     in if nullish edges then Inr (js_or JUndefined (JNum (Fin 0)))
        else (case edges of
                JArr es \<Rightarrow>
                  bind_thrown (reduce_throwing add_quantity (JNum (Fin 0)) es) (\<lambda>total.
                    Inr (js_or total (JNum (Fin 0))))
              | _ \<Rightarrow> Inl TypeError))"

definition draftSummary :: "jsval \<Rightarrow> thrown + jsval" where
  "draftSummary edge =
     bind_thrown (get edge ''node'') (\<lambda>node.
     bind_thrown (get node ''id'') (\<lambda>id.
     bind_thrown (get node ''createdAt'') (\<lambda>createdAt.
     bind_thrown (get node ''email'') (\<lambda>email.
     bind_thrown (get node ''shippingAddress'') (\<lambda>shipping.
     bind_thrown (totalLinesHint node) (\<lambda>hint.
       Inr (JObj [(''id'', id), (''createdAt'', createdAt), (''email'', email),
                  (''shipping'', shipping), (''totalLinesHint'', hint)])))))))"

definition list_drafts ::
    "upstream \<Rightarrow> jsval \<Rightarrow> effects \<Rightarrow> (thrown + response) \<times> effects" where
  "list_drafts post req_query w =
     try_catch
       (case get req_query ''since'' of
          Inl e \<Rightarrow> (Inl e, w)
        | Inr since \<Rightarrow>
            (let until = js_member req_query ''until'';
                 first = js_member req_query ''first''
             in case buildDraftQuery since until of
                  Inl e \<Rightarrow> (Inl e, w)
                | Inr query \<Rightarrow>
                    (case first_variable first of
                       Inl e \<Rightarrow> (Inl e, w)
                     | Inr n \<Rightarrow>
                         (let (r, w1) = shopifyGraphQL post LIST_DRAFTS
                                          (JObj [(''first'', JNum n), (''query'', JStr query)]) w
                          in case r of
                               Inl e \<Rightarrow> (Inl e, w1)
                             | Inr data \<Rightarrow>
                                 (bind_thrown
                                    (js_map draftSummary
                                       (js_or (opt (opt data ''draftOrders'') ''edges'') (JArr [])))
                                    (\<lambda>items. Inr (json_response 200 (JObj [(''items'', items)]))),
                                  w1)))))
       (\<lambda>e. Inr (json_response 500 (JObj [(''error'', JStr ''failed to list drafts'')])))"

text \<open>\<open>GET /api/pick/jobs/:draftId\<close>; the path parameter is a string.\<close>

definition pickLine :: "jsval \<Rightarrow> thrown + jsval" where
  "pickLine edge =
     bind_thrown (get edge ''node'') (\<lambda>node.
     bind_thrown (get node ''id'') (\<lambda>id.
     bind_thrown (get node ''variant'') (\<lambda>variant.
     bind_thrown (get node ''quantity'') (\<lambda>quantity.
       Inr (JObj [(''lineItemId'', id),
                  (''variantId'', js_coalesce (opt variant ''id'') JNull),
                  (''title'', js_coalesce (opt (opt variant ''product'') ''title'') (JStr ''Unknown'')),
                  (''sku'', js_coalesce (opt variant ''sku'') JNull),
                  (''barcode'', js_coalesce (opt variant ''barcode'') JNull),
                  (''qty'', quantity),
                  (''thumb'', js_coalesce (opt (opt variant ''image'') ''originalSrc'') JNull)])))))"

definition fetch_job ::
    "upstream \<Rightarrow> string \<Rightarrow> effects \<Rightarrow> (thrown + response) \<times> effects" where
  "fetch_job post param w =
     try_catch
       (case toGid (JStr ''DraftOrder'') (JStr param) of
          Inl e \<Rightarrow> (Inl e, w)
        | Inr draftId \<Rightarrow>
            (let (r, w1) = shopifyGraphQL post DRAFT_FOR_PICK (JObj [(''id'', JStr draftId)]) w
             in case r of
                  Inl e \<Rightarrow> (Inl e, w1)
                | Inr data \<Rightarrow>
                    (let d = opt data ''draftOrder''
                     in if \<not> truthy d
                        then (Inr (json_response 404 (JObj [(''error'', JStr ''Draft not found'')])), w1)
                        else (bind_thrown
                                (js_map pickLine
                                   (js_or (opt (js_member d ''lineItems'') ''edges'') (JArr [])))
                                (\<lambda>lines. Inr (json_response 200
                                   (JObj [(''draftId'', js_member d ''id''),
                                          (''shippingAddress'', js_member d ''shippingAddress''),
                                          (''lines'', lines)]))),
                              w1))))
       (\<lambda>e. Inr (json_response 500 (JObj [(''error'', JStr ''Failed to fetch draft'')])))"

text \<open>\<open>POST /api/pick/complete\<close>; \<open>req_body\<close> is \<open>req.body\<close>.\<close>

definition complete_draft ::
    "upstream \<Rightarrow> jsval \<Rightarrow> effects \<Rightarrow> (thrown + response) \<times> effects" where
  "complete_draft post req_body w =
     try_catch
       (case get req_body ''draftId'' of
          Inl e \<Rightarrow> (Inl e, w)
        | Inr draftId \<Rightarrow>
            (let p = js_member req_body ''paymentPending'';
                 paymentPending = (if p = JUndefined then JBool True else p)
             in if \<not> truthy draftId
                then (Inr (json_response 400 (JObj [(''error'', JStr ''draftId required'')])), w)
                else
                  (case toGid (JStr ''DraftOrder'') draftId of
                     Inl e \<Rightarrow> (Inl e, w)
                   | Inr gid \<Rightarrow>
                       (let (r, w1) = shopifyGraphQL post COMPLETE_DRAFT
                                        (JObj [(''id'', JStr gid),
                                               (''paymentPending'', paymentPending)]) w
                        in case r of
                             Inl e \<Rightarrow> (Inl e, w1)
                           | Inr data \<Rightarrow>
                               (let out = opt data ''draftOrderComplete''
                                in if truthy (opt (opt out ''userErrors'') ''length'')
                                   then (Inr (json_response 400
                                           (JObj [(''errors'', js_member out ''userErrors'')])), w1)
                                   else (Inr (json_response 200
                                           (JObj [(''order'', opt out ''order'')])), w1))))))
       (\<lambda>e. Inr (json_response 500 (JObj [(''error'', JStr ''Failed to complete draft'')])))"

section \<open>Vocabulary of the properties\<close>

text \<open>The variables each handler posts, as the object literals of the source build them.\<close>

definition list_drafts_variables :: "jsnum \<Rightarrow> string \<Rightarrow> jsval" where
  "list_drafts_variables n query = JObj [(''first'', JNum n), (''query'', JStr query)]"

definition fetch_job_variables :: "string \<Rightarrow> jsval" where
  "fetch_job_variables gid = JObj [(''id'', JStr gid)]"

definition complete_draft_variables :: "string \<Rightarrow> jsval \<Rightarrow> jsval" where
  "complete_draft_variables gid req_body =
     JObj [(''id'', JStr gid),
           (''paymentPending'',
            if js_member req_body ''paymentPending'' = JUndefined then JBool True
            else js_member req_body ''paymentPending'')]"

text \<open>
  The \<open>first\<close> variable of a posted request as the upstream service reads it off the
  wire.
\<close>

definition wire_first :: "jsval \<Rightarrow> jsval" where
  "wire_first variables = (case js_member variables ''first'' of
       JNum n \<Rightarrow> wire_number n
     | v \<Rightarrow> v)"

text \<open>
  An upstream failure: the transport failed (\<open>axios.post\<close> rejected), or it succeeded
  with a body that carries a top-level \<open>errors\<close> list.
\<close>

fun is_array :: "jsval \<Rightarrow> bool" where
  "is_array (JArr xs) = True"
| "is_array v = False"

definition upstream_failure :: "axios_result \<Rightarrow> bool" where
  "upstream_failure r = (case r of
       Rejected msg response \<Rightarrow> True
     | Resolved data \<Rightarrow> is_array (opt data ''errors''))"

definition generic_500 :: "string \<Rightarrow> response" where
  "generic_500 msg = json_response 500 (JObj [(''error'', JStr msg)])"

definition no_effects :: effects where
  "no_effects = \<lparr>requests = [], console = []\<rparr>"

text \<open>An upstream service that never answers in time.\<close>

definition timeout_upstream :: upstream where
  "timeout_upstream query variables = Rejected ''timeout of 15000ms exceeded'' None"

text \<open>
  What the listing reads out of one order edge of an upstream answer: the line-item edges
  returned for the order, the quantity field of a line-item edge as an integer, and
  the summary the specification calls \<open>DraftSummary\<close>, with the total as the sum of the
  integers. \<open>order_edge\<close> says that an edge is what the \<open>LIST_DRAFTS\<close> query returns: it
  has a node, the node's line-item edges are a list when there are any, and each carries
  an integer quantity (GraphQL \<open>Int\<close>), together small enough for doubles to add them
  exactly.
\<close>

definition line_item_edges :: "jsval \<Rightarrow> jsval list" where
  "line_item_edges node = (case opt (opt node ''lineItems'') ''edges'' of
       JArr ls \<Rightarrow> ls
     | _ \<Rightarrow> [])"

definition quantity :: "jsval \<Rightarrow> int" where
  "quantity e = (case opt (opt e ''node'') ''quantity'' of
       JNum (Fin q) \<Rightarrow> \<lfloor>q\<rfloor>
     | _ \<Rightarrow> 0)"

definition integer_quantity :: "jsval \<Rightarrow> bool" where
  "integer_quantity e = (opt (opt e ''node'') ''quantity'' = JNum (Fin (of_int (quantity e))))"

definition order_edge :: "jsval \<Rightarrow> bool" where
  "order_edge e = (let node = opt e ''node''; es = opt (opt node ''lineItems'') ''edges''
     in \<not> nullish node \<and> (nullish es \<or> is_array es) \<and>
        list_all integer_quantity (line_item_edges node) \<and>
        sum_list (map (\<lambda>l. \<bar>quantity l\<bar>) (line_item_edges node)) \<le> 2 ^ 53)"

definition DraftSummary :: "jsval \<Rightarrow> jsval" where
  "DraftSummary e = (let node = opt e ''node''
     in JObj [(''id'', js_member node ''id''),
              (''createdAt'', js_member node ''createdAt''),
              (''email'', js_member node ''email''),
              (''shipping'', js_member node ''shippingAddress''),
              (''totalLinesHint'',
               JNum (Fin (of_int (sum_list (map quantity (line_item_edges node))))))])"

section \<open>Doubles add small integers exactly\<close>

lemma ilen_one: "ilen 2 1 = 1"
  by (simp add: ilen.simps)

lemma ilen_pos: "0 < x \<Longrightarrow> 0 < ilen 2 x"
proof (induction "2::int" x rule: ilen.induct)
  case (1 x)
  show ?case
  proof (cases "0 < x div 2")
    case True
    with 1 show ?thesis by (simp add: ilen.simps [of 2 x])
  next
    case False
    with 1 have "x div 2 = 0" by (simp add: pos_imp_zdiv_nonneg_iff order.antisym not_less)
    with 1 show ?thesis by (simp add: ilen.simps [of 2 x] ilen.simps [of 2 0])
  qed
qed

lemma ilen_bounds:
  "0 < x \<Longrightarrow> 2 ^ nat (ilen 2 x - 1) \<le> x \<and> x < 2 ^ nat (ilen 2 x)"
proof (induction "2::int" x rule: ilen.induct)
  case (1 x)
  show ?case
  proof (cases "0 < x div 2")
    case False
    with 1 have "x = 1" by (simp add: not_less)
    then show ?thesis by (simp add: ilen_one)
  next
    case True
    let ?l = "ilen 2 (x div 2)"
    from 1 True have ih: "2 ^ nat (?l - 1) \<le> x div 2" "x div 2 < 2 ^ nat ?l"
      by simp_all
    from True have lp: "0 < ?l" by (rule ilen_pos)
    have eq: "ilen 2 x = ?l + 1"
      using 1(2) by (simp add: ilen.simps [of 2 x])
    from lp obtain n where n: "?l = int (Suc n)"
      by (metis Suc_pred' nat_0_iff nat_eq_iff2 not_less order_less_imp_le zero_less_nat_eq)
    have "2 * (x div 2) \<le> x" "x \<le> 2 * (x div 2) + 1"
      by presburger+
    moreover from n have nn: "nat ?l = Suc n" "nat (?l - 1) = n" "nat (?l + 1) = Suc (Suc n)"
      by simp_all
    moreover from ih have "2 ^ n \<le> x div 2" "x div 2 < 2 * 2 ^ n"
      unfolding nn by simp_all
    ultimately have "2 * 2 ^ n \<le> x" "x < 2 * (2 * 2 ^ n)"
      by linarith+
    then show ?thesis
      unfolding eq using nn by simp
  qed
qed

lemma round_half_even_of_int: "round_half_even (of_int m) = m"
  by (simp add: round_half_even_def)

lemma ilog_of_int:
  assumes "0 < k"
  shows "ilog 2 (of_int k) = ilen 2 k - 1"
proof -
  from assms have lp: "0 < ilen 2 k" by (rule ilen_pos)
  from ilen_bounds [OF assms] have "(2::int) ^ nat (ilen 2 k - 1) \<le> k" by simp
  then have "(of_int ((2::int) ^ nat (ilen 2 k - 1)) :: rat) \<le> of_int k"
    by (simp only: of_int_le_iff)
  then have "(2::rat) ^ nat (ilen 2 k - 1) \<le> of_int k"
    by simp
  with lp have "(2::rat) powi (ilen 2 k - 1) \<le> of_int k"
    by (simp add: power_int_def)
  then show ?thesis
    by (simp add: ilog_def ilen_one)
qed

lemma round64_of_nonneg:
  assumes "0 < a" and "a \<le> 2 ^ 53"
  shows "(let e = max (ilog 2 (of_int a)) (- 1022); ulp = 2 powi (e - 52)
          in of_int (round_half_even (of_int a / ulp)) * ulp) = (of_int a :: rat)"
proof -
  let ?e = "ilen 2 a - 1"
  from assms(1) have lp: "0 < ilen 2 a" by (rule ilen_pos)
  then have e0: "0 \<le> ?e" by simp
  from ilen_bounds [OF assms(1)] have lo: "(2::int) ^ nat ?e \<le> a" by simp
  have e53: "?e \<le> 53"
  proof (rule ccontr)
    assume "\<not> ?e \<le> 53"
    then have "54 \<le> nat ?e" by simp
    then have "(2::int) ^ 54 \<le> 2 ^ nat ?e"
      by (intro power_increasing) simp_all
    with lo assms(2) show False by simp
  qed
  have il: "max (ilog 2 (of_int a)) (- 1022) = ?e"
    using e0 by (simp add: ilog_of_int [OF assms(1)])
  show ?thesis
  proof (cases "?e \<le> 52")
    case True
    then obtain n where n: "52 - ?e = int n"
      by (metis diff_ge_0_iff_ge nonneg_int_cases)
    then have u: "(2::rat) powi (?e - 52) = 1 / 2 ^ n"
      by (metis diff_diff_eq2 diff_self minus_diff_eq power_int_minus_divide power_int_of_nat add.left_neutral uminus_add_conv_diff)
    have "of_int a / (1 / (2::rat) ^ n) = of_int (a * 2 ^ n)"
      by simp
    then have "round_half_even (of_int a / (1 / (2::rat) ^ n)) = a * 2 ^ n"
      by (simp only: round_half_even_of_int)
    then show ?thesis
      unfolding il Let_def u by simp
  next
    case False
    with e53 have e: "?e = 53" by simp
    with lo assms(2) have a: "a = 2 ^ 53" by simp
    have u: "(2::rat) powi (?e - 52) = 2"
      unfolding e by simp
    have "of_int a / (2::rat) = of_int (2 ^ 52)"
      unfolding a by simp
    then have "round_half_even (of_int a / (2::rat)) = 2 ^ 52"
      by (simp only: round_half_even_of_int)
    then show ?thesis
      unfolding il Let_def u by (simp add: a)
  qed
qed

lemma round64_exact:
  assumes "q \<noteq> 0"
    and "(let e = max (ilog 2 \<bar>q\<bar>) (- 1022); ulp = 2 powi (e - 52)
          in of_int (round_half_even (\<bar>q\<bar> / ulp)) * ulp) = \<bar>q\<bar>"
    and "\<not> 2 ^ 1024 \<le> \<bar>q\<bar>"
  shows "round64 q = Fin q"
proof -
  have "round64 q = Fin (if q < 0 then - \<bar>q\<bar> else \<bar>q\<bar>)"
    using assms unfolding round64_def Let_def by (simp only: if_False)
  then show ?thesis by (simp add: abs_if)
qed

lemma round64_of_int:
  assumes "\<bar>k\<bar> \<le> 2 ^ 53"
  shows "round64 (of_int k) = Fin (of_int k)"
proof (cases "k = 0")
  case True
  then show ?thesis by (simp add: round64_def)
next
  case False
  let ?a = "\<bar>k\<bar>"
  from False have ap: "0 < ?a" by simp
  have abs: "\<bar>of_int k :: rat\<bar> = of_int ?a" by simp
  have r: "(let e = max (ilog 2 (of_int ?a)) (- 1022); ulp = 2 powi (e - 52)
            in of_int (round_half_even (of_int ?a / ulp)) * ulp) = (of_int ?a :: rat)"
    using ap assms by (rule round64_of_nonneg)
  have small: "\<not> (2::rat) ^ 1024 \<le> of_int ?a"
  proof -
    from assms have "(of_int ?a :: rat) \<le> of_int (2 ^ 53)"
      by (simp only: of_int_le_iff)
    then have "(of_int ?a :: rat) \<le> 2 ^ 53" by simp
    moreover have "(2::rat) ^ 53 < 2 ^ 1024" by simp
    ultimately show ?thesis by linarith
  qed
  from False have "(of_int k :: rat) \<noteq> 0" by simp
  then show ?thesis
    by (rule round64_exact) (simp_all only: abs r small not_False_eq_True)
qed

section \<open>Integers print as their decimal digits\<close>

lemma ilen_small: "0 < x \<Longrightarrow> x < b \<Longrightarrow> ilen b x = 1"
  by (simp add: ilen.simps [of b x] ilen.simps [of b 0])

lemma ilen_step: "1 < b \<Longrightarrow> b \<le> x \<Longrightarrow> ilen b x = ilen b (x div b) + 1"
  by (simp add: ilen.simps [of b x])

lemma ilen_nonneg: "0 \<le> ilen b x"
proof (induction b x rule: ilen.induct)
  case (1 b x)
  then show ?case by (simp add: ilen.simps [of b x])
qed

lemma ilen_power_bounds:
  "1 < b \<Longrightarrow> 0 < x \<Longrightarrow> b ^ nat (ilen b x - 1) \<le> x \<and> x < b ^ nat (ilen b x)"
proof (induction b x rule: ilen.induct)
  case (1 b x)
  show ?case
  proof (cases "x < b")
    case True
    with 1(3) show ?thesis by (simp add: ilen_small)
  next
    case False
    then have bx: "b \<le> x" by simp
    let ?l = "ilen b (x div b)"
    from bx 1(2) have dp: "0 < x div b"
      by (simp add: pos_imp_zdiv_pos_iff)
    with 1 have ih: "b ^ nat (?l - 1) \<le> x div b" "x div b < b ^ nat ?l"
      by simp_all
    have eq: "ilen b x = ?l + 1"
      using 1(2) bx by (rule ilen_step)
    have lp: "0 < ?l"
      using dp 1(2) by (simp add: ilen.simps [of b "x div b"] ilen_nonneg add_nonneg_pos)
    then obtain n where n: "?l = int (Suc n)"
      by (metis Suc_pred' nat_0_iff nat_eq_iff2 not_less zero_less_nat_eq)
    then have nn: "nat ?l = Suc n" "nat (?l - 1) = n" "nat (?l + 1 - 1) = Suc n"
        "nat (?l + 1) = Suc (Suc n)"
      by simp_all
    from ih have i1: "b ^ n \<le> x div b" and i2: "x div b + 1 \<le> b * b ^ n"
      unfolding nn by simp_all
    from 1(2) have b0: "0 < b" by simp
    have m: "b * (x div b) + x mod b = x"
      by (rule mult_div_mod_eq)
    have m0: "0 \<le> x mod b" "x mod b < b"
      using b0 by simp_all
    have e: "b * (x div b + 1) = b * (x div b) + b"
      by (simp add: distrib_left)
    from m m0 e have "b * (x div b) \<le> x" "x < b * (x div b + 1)"
      by linarith+
    moreover from i1 b0 have "b * b ^ n \<le> b * (x div b)"
      by (simp add: mult_left_mono)
    moreover from i2 b0 have "b * (x div b + 1) \<le> b * (b * b ^ n)"
      by (simp add: mult_left_mono)
    ultimately have "b * b ^ n \<le> x" "x < b * (b * b ^ n)"
      by linarith+
    then show ?thesis
      unfolding eq nn by simp
  qed
qed

lemma ilog_of_int_base:
  assumes "1 < b" and "0 < k"
  shows "ilog b (of_int k) = ilen b k - 1"
proof -
  from assms have "b ^ nat (ilen b k - 1) \<le> k"
    using ilen_power_bounds by blast
  then have "(of_int (b ^ nat (ilen b k - 1)) :: rat) \<le> of_int k"
    by (simp only: of_int_le_iff)
  then have p: "(of_int b :: rat) ^ nat (ilen b k - 1) \<le> of_int k"
    by simp
  have lp: "0 \<le> ilen b k - 1"
  proof (cases "k < b")
    case True
    with assms show ?thesis by (simp add: ilen_small)
  next
    case False
    with assms show ?thesis by (simp add: ilen_step ilen_nonneg)
  qed
  with p have "(of_int b :: rat) powi (ilen b k - 1) \<le> of_int k"
    by (simp add: power_int_def)
  moreover from assms(1) have "ilen b 1 = 1"
    by (simp add: ilen_small)
  ultimately show ?thesis
    by (simp add: ilog_def)
qed

lemma digits10_small: "n < 10 \<Longrightarrow> digits10 n = [''0123456789'' ! nat n]"
  by (simp add: digits10.simps [of n])

lemma digits10_step:
  "10 \<le> n \<Longrightarrow> digits10 n = digits10 (n div 10) @ [''0123456789'' ! nat (n mod 10)]"
  by (simp add: digits10.simps [of n])

lemma digits10_times_10:
  assumes "0 < a"
  shows "digits10 (a * 10) = digits10 a @ ''0''"
proof -
  from assms have "10 \<le> a * 10" by simp
  then show ?thesis by (simp add: digits10_step)
qed

lemma digits10_times_power:
  assumes "0 < a"
  shows "digits10 (a * 10 ^ j) = digits10 a @ replicate j CHR ''0''"
proof (induction j)
  case 0
  then show ?case by simp
next
  case (Suc j)
  from assms have "0 < a * 10 ^ j" by simp
  then have "digits10 (a * 10 ^ j * 10) = digits10 (a * 10 ^ j) @ ''0''"
    by (rule digits10_times_10)
  with Suc show ?case
    by (simp add: mult.assoc mult.commute [of 10] replicate_append_same)
qed

lemma length_digits10:
  "0 < n \<Longrightarrow> int (length (digits10 n)) = ilen 10 n"
proof (induction n rule: digits10.induct)
  case (1 n)
  show ?case
  proof (cases "n < 10")
    case True
    with 1(2) show ?thesis by (simp add: digits10_small ilen_small)
  next
    case False
    then have "0 < n div 10" by simp
    with 1 False show ?thesis
      by (simp add: digits10_step ilen_step)
  qed
qed

lemma candidate_int:
  assumes "0 < n" and "n < 10 ^ 15" and "1 \<le> k" and "k \<le> ilen 10 n"
  shows "candidate (of_int n) (ilen 10 n) k =
           (if 10 ^ nat (ilen 10 n - k) dvd n
            then Some (ilen 10 n, digits10 (n div 10 ^ nat (ilen 10 n - k))) else None)"
proof -
  let ?d = "ilen 10 n"
  let ?S = "(10::int) ^ nat (?d - k)"
  let ?lo = "n div ?S"
  have sc: "(10::rat) powi (?d - k) = of_int ?S"
    using assms(4) by (simp add: power_int_def)
  have Sp: "0 < ?S" by simp
  have "?S \<le> 10 ^ nat (?d - 1)"
    using assms(3) by (intro power_increasing) simp_all
  also have "\<dots> \<le> n"
    using ilen_power_bounds [of 10 n] assms(1) by simp
  finally have Sn: "?S \<le> n" .
  have fl: "\<lfloor>(of_int n :: rat) / of_int ?S\<rfloor> = ?lo"
    by (rule floor_divide_of_int_eq)
  have m: "?S * ?lo + n mod ?S = n"
    by (rule mult_div_mod_eq)
  have m0: "0 \<le> n mod ?S" "n mod ?S < ?S"
    using Sp by simp_all
  have c: "?lo * ?S = ?S * ?lo"
    by (rule mult.commute)
  from m m0 c have lo1: "?lo * ?S \<le> n"
    by linarith
  have hi_eq: "(?lo + 1) * ?S = ?lo * ?S + ?S"
    by (simp add: distrib_right)
  from m m0 c have hi1: "n < (?lo + 1) * ?S"
    unfolding hi_eq by linarith
  have "0 \<le> ?lo"
    using assms(1) Sp by (simp add: pos_imp_zdiv_nonneg_iff)
  then have lo0: "0 \<le> ?lo * ?S"
    using Sp by (intro mult_nonneg_nonneg) simp_all
  have big: "(10::int) ^ 15 \<le> 2 ^ 53" "2 * (10::int) ^ 15 \<le> 2 ^ 53"
    by simp_all
  from lo0 lo1 assms(2) big have "\<bar>?lo * ?S\<bar> \<le> 2 ^ 53"
    by linarith
  then have rl: "round64 (of_int ?lo * of_int ?S) = Fin (of_int (?lo * ?S))"
    using round64_of_int [of "?lo * ?S"] by simp
  from lo0 lo1 Sn Sp assms(2) big have "\<bar>(?lo + 1) * ?S\<bar> \<le> 2 ^ 53"
    unfolding hi_eq by linarith
  then have rh: "round64 (of_int (?lo + 1) * of_int ?S) = Fin (of_int ((?lo + 1) * ?S))"
    using round64_of_int [of "(?lo + 1) * ?S"] by simp
  have okl: "(Fin (of_int (?lo * ?S)) = Fin (of_int n :: rat)) = (?S dvd n)"
  proof -
    have "(?lo * ?S = n) = (n mod ?S = 0)"
      using m c by linarith
    then have "(?lo * ?S = n) = (?S dvd n)"
      by (simp only: mod_eq_0_iff_dvd)
    then show ?thesis by (simp only: jsnum.inject of_int_eq_iff)
  qed
  from hi1 have "(?lo + 1) * ?S \<noteq> n"
    by linarith
  then have okh: "Fin (of_int ((?lo + 1) * ?S)) \<noteq> Fin (of_int n :: rat)"
    by (simp only: jsnum.inject of_int_eq_iff not_False_eq_True)
  then have okh': "(Fin (of_int ((?lo + 1) * ?S)) = Fin (of_int n :: rat)) = False"
    by simp
  show ?thesis
    unfolding candidate_def Let_def sc fl rl rh okl okh' by simp
qed

lemma shortest_int:
  assumes "0 < n" and "n < 10 ^ 15" and "1 \<le> k" and "k \<le> ilen 10 n"
    and "ilen 10 n \<le> k + int fuel"
  shows "\<exists>j. 10 ^ j dvd n \<and>
           shortest (of_int n) (ilen 10 n) fuel k = (ilen 10 n, digits10 (n div 10 ^ j))"
  using assms(3-5)
proof (induction fuel arbitrary: k)
  case 0
  then have k: "k = ilen 10 n" by simp
  have "candidate (of_int n) (ilen 10 n) k = Some (ilen 10 n, digits10 (n div 10 ^ 0))"
    using candidate_int [OF assms(1,2) "0.prems"(1,2)] by (simp add: k)
  then have "shortest (of_int n) (ilen 10 n) 0 k = (ilen 10 n, digits10 (n div 10 ^ 0))"
    by simp
  moreover have "(10::int) ^ 0 dvd n" by simp
  ultimately show ?case by blast
next
  case (Suc fuel)
  let ?j = "nat (ilen 10 n - k)"
  note c = candidate_int [OF assms(1,2) Suc.prems(1,2)]
  show ?case
  proof (cases "10 ^ ?j dvd n")
    case True
    with c have "shortest (of_int n) (ilen 10 n) (Suc fuel) k =
        (ilen 10 n, digits10 (n div 10 ^ ?j))"
      by simp
    with True show ?thesis by blast
  next
    case False
    then have "k \<noteq> ilen 10 n" by auto
    with Suc.prems have k1: "1 \<le> k + 1" "k + 1 \<le> ilen 10 n" "ilen 10 n \<le> k + 1 + int fuel"
      by simp_all
    from False c have "shortest (of_int n) (ilen 10 n) (Suc fuel) k =
        shortest (of_int n) (ilen 10 n) fuel (k + 1)"
      by simp
    with Suc.IH [OF k1] show ?thesis by simp
  qed
qed

lemma ilen_10_range:
  assumes "0 < n" and "n < 10 ^ 15"
  shows "1 \<le> ilen 10 n \<and> ilen 10 n \<le> 15"
proof -
  have one: "1 \<le> ilen 10 n"
  proof (cases "n < 10")
    case True
    with assms(1) show ?thesis by (simp add: ilen_small)
  next
    case False
    then show ?thesis by (simp add: ilen_step ilen_nonneg)
  qed
  have "(10::int) ^ nat (ilen 10 n - 1) \<le> n"
    using ilen_power_bounds [of 10 n] assms(1) by simp
  with assms(2) have "(10::int) ^ nat (ilen 10 n - 1) < 10 ^ 15"
    by linarith
  then have "nat (ilen 10 n - 1) < 15"
    by (simp only: power_strict_increasing_iff [of 10] one_less_numeral_iff semiring_norm)
  with one show ?thesis by simp
qed

lemma positive_to_string_int:
  assumes "0 < n" and "n < 10 ^ 15"
  shows "positive_to_string (of_int n) = digits10 n"
proof -
  let ?d = "ilen 10 n"
  from ilen_10_range [OF assms] have d1: "1 \<le> ?d" and d15: "?d \<le> 15"
    by simp_all
  have il: "ilog 10 (of_int n) + 1 = ?d"
    using ilog_of_int_base [of 10 n] assms(1) by simp
  from d15 have "?d \<le> 1 + int 16" by simp
  with shortest_int [OF assms, of 1 16] d1 obtain j where
      dv: "10 ^ j dvd n" and sh: "shortest (of_int n) ?d 16 1 = (?d, digits10 (n div 10 ^ j))"
    by blast
  let ?m = "n div 10 ^ j"
  from dv have nm: "n = ?m * 10 ^ j" by simp
  with assms(1) have mp: "0 < ?m"
    by (metis mult_zero_left not_less order.order_iff_strict pos_imp_zdiv_nonneg_iff
        zero_less_numeral zero_less_power less_le)
  have dn: "digits10 n = digits10 ?m @ replicate j CHR ''0''"
    using digits10_times_power [OF mp, of j] nm by simp
  have "int (length (digits10 n)) = ?d"
    using assms(1) by (rule length_digits10)
  with dn have len: "int (length (digits10 ?m)) = ?d - int j"
    by simp
  then have le: "int (length (digits10 ?m)) \<le> ?d" and j: "nat (?d - int (length (digits10 ?m))) = j"
    by simp_all
  from d15 have d21: "?d \<le> 21" by simp
  show ?thesis
    unfolding positive_to_string_def il sh using le j d21 dn by simp
qed

lemma NumberToString_int:
  assumes "0 \<le> n" and "n < 10 ^ 15"
  shows "NumberToString (Fin (of_int n)) = digits10 n"
proof (cases "n = 0")
  case True
  then show ?thesis by (simp add: NumberToString_def digits10_small)
next
  case False
  with assms have "0 < n" by simp
  then show ?thesis
    using positive_to_string_int [OF _ assms(2)] by (simp add: NumberToString_def)
qed

lemma digits10_head:
  "0 \<le> n \<Longrightarrow> digits10 n \<noteq> [] \<and> hd (digits10 n) \<in> set ''0123456789''"
proof (induction n rule: digits10.induct)
  case (1 n)
  show ?case
  proof (cases "n < 10")
    case True
    with 1(2) have "nat n < length ''0123456789''" by simp
    then have "''0123456789'' ! nat n \<in> set ''0123456789''"
      by (rule nth_mem)
    with True show ?thesis by (simp only: digits10_small list.sel) simp
  next
    case False
    then have "0 \<le> n div 10" by simp
    with 1(1) False have "digits10 (n div 10) \<noteq> [] \<and> hd (digits10 (n div 10)) \<in> set ''0123456789''"
      by simp
    with False show ?thesis by (simp add: digits10_step)
  qed
qed

lemma digits10_not_qualified:
  assumes "0 \<le> n"
  shows "\<not> startsWith (digits10 n) ''gid://''"
proof
  assume "startsWith (digits10 n) ''gid://''"
  then have t: "take (length ''gid://'') (digits10 n) = ''gid://''"
    unfolding startsWith_def .
  from digits10_head [OF assms] have ne: "digits10 n \<noteq> []"
    and h: "hd (digits10 n) \<in> set ''0123456789''"
    by simp_all
  from ne have "hd (take (length ''gid://'') (digits10 n)) = hd (digits10 n)"
    by (cases "digits10 n") simp_all
  with t have "hd (digits10 n) = CHR ''g''"
    by simp
  with h show False
    by simp
qed

section \<open>Identifier normalisation\<close>

lemma startsWith_append: "startsWith (p @ s) p"
  by (simp add: startsWith_def)

lemma toGid_cases:
  "toGid t v = (case ToString v of
       Inl e \<Rightarrow> Inl e
     | Inr s \<Rightarrow> if startsWith s ''gid://'' then Inr s
                else (case ToString t of
                        Inl e \<Rightarrow> Inl e
                      | Inr ts \<Rightarrow> Inr (''gid://shopify/'' @ ts @ ''/'' @ s)))"
  by (simp add: toGid_def bind_thrown_def split: sum.split)

lemma toGid_string:
  "toGid (JStr t) (JStr s) =
     Inr (if startsWith s ''gid://'' then s else ''gid://shopify/'' @ t @ ''/'' @ s)"
  by (simp add: toGid_cases)

lemma toGid_qualified:
  assumes "toGid t v = Inr r"
  shows "startsWith r ''gid://''"
proof -
  have "startsWith (''gid://'' @ (''shopify/'' @ ts @ ''/'' @ s)) ''gid://''" for ts s
    by (rule startsWith_append)
  with assms show ?thesis
    by (auto simp: toGid_cases split: sum.splits if_splits)
qed

text \<open>
  C2. Whatever the identifier is, a string or a number of a JSON body, \<open>toGid\<close> looks
  at the string \<open>s\<close> that \<open>String\<close> makes of it. If \<open>s\<close> starts with \<open>gid://\<close>, the
  prefix \<open>toGid\<close> tests for, \<open>s\<close> is returned as it is; otherwise the result is
  \<open>gid://shopify/<type>/s\<close>, the identifier wrapped once. A string is its own \<open>s\<close>, and
  a bare numeric identifier (a whole number below \<open>10 ^ 15\<close>) is wrapped as its decimal
  digits.
\<close>

theorem toGid_identity_or_wrap:
  "(ToString v = Inr s \<and> startsWith s ''gid://'' \<longrightarrow> toGid t v = Inr s) \<and>
   (ToString v = Inr s \<and> \<not> startsWith s ''gid://'' \<and> ToString t = Inr ts \<longrightarrow>
      toGid t v = Inr (''gid://shopify/'' @ ts @ ''/'' @ s)) \<and>
   ToString (JStr x) = Inr x \<and>
   (0 \<le> n \<and> n < 10 ^ 15 \<and> ToString t = Inr ts \<longrightarrow>
      toGid t (JNum (Fin (of_int n))) = Inr (''gid://shopify/'' @ ts @ ''/'' @ digits10 n))"
  using digits10_not_qualified [of n]
  by (simp add: toGid_cases NumberToString_int)

theorem toGid_identity_or_wrap_witness:
  "toGid (JStr ''DraftOrder'') (JStr ''gid://shopify/DraftOrder/7'') =
     Inr ''gid://shopify/DraftOrder/7'' \<and>
   toGid (JStr ''DraftOrder'') (JStr ''7'') = Inr ''gid://shopify/DraftOrder/7'' \<and>
   toGid (JStr ''DraftOrder'') (JNum (Fin 1187654321098)) =
     Inr ''gid://shopify/DraftOrder/1187654321098''"
proof -
  have n: "digits10 1187654321098 = ''1187654321098''"
    by (simp add: digits10.simps)
  show ?thesis
    using toGid_identity_or_wrap [where v = "JStr ''gid://shopify/DraftOrder/7''"
            and s = "''gid://shopify/DraftOrder/7''" and t = "JStr ''DraftOrder''"
            and x = "''gid://shopify/DraftOrder/7''"]
          toGid_identity_or_wrap [where v = "JStr ''7''" and s = "''7''"
            and t = "JStr ''DraftOrder''" and ts = "''DraftOrder''" and x = "''DraftOrder''"]
          toGid_identity_or_wrap [where n = 1187654321098
            and t = "JStr ''DraftOrder''" and ts = "''DraftOrder''" and x = "''DraftOrder''"]
          n
    by (simp add: startsWith_def)
qed

text \<open>
  C9. \<open>toGid\<close> is idempotent: applied to its own result it returns that result, and
  where the first application throws there is no second. The test looks at the prefix
  \<open>gid://\<close> only: a string that has it is returned unchanged under any type tag, as the
  identifier of an \<open>Order\<close> is under the tag \<open>DraftOrder\<close>.
\<close>

theorem toGid_idempotent:
  "bind_thrown (toGid t v) (\<lambda>r. toGid t (JStr r)) = toGid t v \<and>
   (startsWith s ''gid://'' \<longrightarrow> toGid t (JStr s) = Inr s) \<and>
   toGid (JStr ''DraftOrder'') (JStr ''gid://shopify/Order/42'') = Inr ''gid://shopify/Order/42''"
proof (intro conjI impI)
  show "bind_thrown (toGid t v) (\<lambda>r. toGid t (JStr r)) = toGid t v"
  proof (cases "toGid t v")
    case (Inl e)
    then show ?thesis by (simp add: bind_thrown_def)
  next
    case (Inr r)
    then have "startsWith r ''gid://''" by (rule toGid_qualified)
    then have "toGid t (JStr r) = Inr r" by (simp add: toGid_cases)
    with Inr show ?thesis by (simp add: bind_thrown_def)
  qed
  show "toGid t (JStr s) = Inr s" if "startsWith s ''gid://''"
    using that by (simp add: toGid_cases)
  show "toGid (JStr ''DraftOrder'') (JStr ''gid://shopify/Order/42'') = Inr ''gid://shopify/Order/42''"
    by (simp add: toGid_cases startsWith_def)
qed

theorem toGid_idempotent_witness:
  "bind_thrown (toGid (JStr ''DraftOrder'') (JStr ''42''))
     (\<lambda>r. toGid (JStr ''DraftOrder'') (JStr r)) = Inr ''gid://shopify/DraftOrder/42'' \<and>
   bind_thrown (toGid (JStr ''DraftOrder'') (JObj [(''toString'', JStr ''42'')]))
     (\<lambda>r. toGid (JStr ''DraftOrder'') (JStr r)) = Inl TypeError \<and>
   toGid (JStr ''Order'') (JStr ''gid://shopify/DraftOrder/42'') = Inr ''gid://shopify/DraftOrder/42''"
proof -
  have a: "toGid (JStr ''DraftOrder'') (JStr ''42'') = Inr ''gid://shopify/DraftOrder/42''"
    by (simp add: toGid_cases startsWith_def)
  have b: "toGid (JStr ''DraftOrder'') (JObj [(''toString'', JStr ''42'')]) = Inl TypeError"
    by (simp add: toGid_cases)
  have c: "startsWith ''gid://shopify/DraftOrder/42'' ''gid://''"
    by (simp add: startsWith_def)
  show ?thesis
    using toGid_idempotent [of "JStr ''DraftOrder''" "JStr ''42''" "''gid://shopify/DraftOrder/42''"]
          toGid_idempotent [of "JStr ''DraftOrder''" "JObj [(''toString'', JStr ''42'')]"
            "''gid://shopify/DraftOrder/42''"]
          toGid_idempotent [of "JStr ''Order''" "JStr ''42''" "''gid://shopify/DraftOrder/42''"] a b c
    by simp
qed

section \<open>The draft filter\<close>

text \<open>
  C1, as amended. Where the string conversions of the template literals succeed,
  the filter always ends with the term \<open>status:open\<close>; it has the term
  \<open>created_at:>=<since>\<close> exactly when \<open>since\<close> is truthy (supplied and not the empty
  string), the term \<open>created_at:<=<until>\<close> exactly when \<open>until\<close> is truthy, in this
  order, each term followed by one space before the next. A truthy parameter whose
  conversion throws (an object with an own \<open>toString\<close>) makes \<open>buildDraftQuery\<close> throw, and
  no filter is built. Of the values a query parameter can take, only \<open>undefined\<close> and the
  empty string are not truthy, and a string converts to itself.
\<close>

theorem buildDraftQuery_terms:
  "((truthy since \<longrightarrow> ToString since = Inr s) \<and> (truthy until \<longrightarrow> ToString until = Inr u) \<longrightarrow>
      buildDraftQuery since until =
        Inr ((if truthy since then ''created_at:>='' @ s @ '' '' else []) @
             (if truthy until then ''created_at:<='' @ u @ '' '' else []) @
             ''status:open'')) \<and>
   (truthy since \<and> ToString since = Inl e \<longrightarrow> buildDraftQuery since until = Inl e) \<and>
   ((truthy since \<longrightarrow> ToString since = Inr s) \<and> truthy until \<and> ToString until = Inl e \<longrightarrow>
      buildDraftQuery since until = Inl e) \<and>
   ToString (JStr x) = Inr x \<and>
   \<not> truthy JUndefined \<and> truthy (JStr x) = (x \<noteq> []) \<and> truthy (JArr xs) \<and> truthy (JObj kvs)"
  by (simp add: buildDraftQuery_def bind_thrown_def)

theorem buildDraftQuery_terms_witness:
  "buildDraftQuery (JStr ''2024-01-01'') (JStr ''2024-01-31'') =
     Inr ''created_at:>=2024-01-01 created_at:<=2024-01-31 status:open'' \<and>
   buildDraftQuery (JStr ''2024-01-01'') JUndefined = Inr ''created_at:>=2024-01-01 status:open'' \<and>
   buildDraftQuery JUndefined (JStr ''2024-01-31'') = Inr ''created_at:<=2024-01-31 status:open'' \<and>
   buildDraftQuery JUndefined JUndefined = Inr ''status:open'' \<and>
   buildDraftQuery (JObj [(''toString'', JStr ''x'')]) JUndefined = Inl TypeError"
  using buildDraftQuery_terms [where since = "JStr ''2024-01-01''" and until = "JStr ''2024-01-31''"
          and s = "''2024-01-01''" and u = "''2024-01-31''"]
        buildDraftQuery_terms [where since = "JStr ''2024-01-01''" and until = JUndefined
          and s = "''2024-01-01''"]
        buildDraftQuery_terms [where since = JUndefined and until = "JStr ''2024-01-31''"
          and u = "''2024-01-31''"]
        buildDraftQuery_terms [where since = JUndefined and until = JUndefined]
        buildDraftQuery_terms [where since = "JObj [(''toString'', JStr ''x'')]"
          and until = JUndefined and e = TypeError]
  by simp

text \<open>
  C1 as stated fails where a parameter is supplied and empty, as in the request
  \<open>GET /api/pick/drafts?since=\<close>: \<open>since\<close> is the empty string, not \<open>undefined\<close>, and
  the filter has no \<open>created_at:>=\<close> term.
\<close>

theorem buildDraftQuery_empty_since:
  "JStr [] \<noteq> JUndefined \<and>
   buildDraftQuery (JStr []) JUndefined = Inr ''status:open'' \<and>
   buildDraftQuery (JStr []) JUndefined \<noteq> Inr (''created_at:>='' @ [] @ '' status:open'')"
  by (simp add: buildDraftQuery_def bind_thrown_def)

section \<open>The upstream call\<close>

lemma truthy_is_array: "is_array v \<Longrightarrow> truthy v"
  by (cases v) simp_all

lemma shopifyGraphQL_failure:
  assumes "upstream_failure (post q v)" and "v \<noteq> JUndefined"
  shows "\<exists>e. fst (shopifyGraphQL post q v w) = Inl e"
proof (cases "post q v")
  case (Resolved data)
  with assms have arr: "is_array (opt data ''errors'')"
    by (simp add: upstream_failure_def)
  then have "\<not> nullish data"
    by (auto simp: opt_def)
  with arr have "truthy (js_member data ''errors'')"
    by (auto simp: opt_def dest: truthy_is_array)
  with Resolved \<open>\<not> nullish data\<close> assms(2) show ?thesis
    by (simp add: shopifyGraphQL_def get_def Let_def)
next
  case (Rejected msg response)
  with assms(2) show ?thesis
    by (simp add: shopifyGraphQL_def Let_def)
qed

lemma shopifyGraphQL_requests:
  "v \<noteq> JUndefined \<Longrightarrow> requests (snd (shopifyGraphQL post q v w)) = requests w @ [(q, v)]"
  by (simp add: shopifyGraphQL_def Let_def log_caught_def
           split: axios_result.split sum.split thrown.split option.split prod.split)

lemma shopifyGraphQL_ok:
  assumes "post q v = Resolved data" and "v \<noteq> JUndefined" and "\<not> nullish data"
    and "\<not> truthy (js_member data ''errors'')"
  shows "shopifyGraphQL post q v w =
           (Inr (js_member data ''data''), w\<lparr>requests := requests w @ [(q, v)]\<rparr>)"
  using assms by (simp add: shopifyGraphQL_def get_def Let_def)

section \<open>The handlers, by the outcome of the upstream call\<close>

lemma list_drafts_throws:
  assumes "nullish req_query \<or>
      buildDraftQuery (js_member req_query ''since'') (js_member req_query ''until'') = Inl e \<or>
      first_variable (js_member req_query ''first'') = Inl e"
  shows "list_drafts post req_query w = (Inr (generic_500 ''failed to list drafts''), w)"
  using assms
  unfolding list_drafts_def
  by (auto simp add: try_catch_def get_def generic_500_def Let_def split: sum.split)

lemma list_drafts_unfold:
  assumes "\<not> nullish req_query"
    and "buildDraftQuery (js_member req_query ''since'') (js_member req_query ''until'') = Inr query"
    and "first_variable (js_member req_query ''first'') = Inr n"
    and "shopifyGraphQL post LIST_DRAFTS (list_drafts_variables n query) w = (r, w1)"
  shows "list_drafts post req_query w =
     (case r of
        Inl e \<Rightarrow> (Inr (json_response 500 (JObj [(''error'', JStr ''failed to list drafts'')])), w1)
      | Inr data \<Rightarrow>
         (case js_map draftSummary (js_or (opt (opt data ''draftOrders'') ''edges'') (JArr [])) of
            Inl e \<Rightarrow> (Inr (json_response 500 (JObj [(''error'', JStr ''failed to list drafts'')])), w1)
          | Inr items \<Rightarrow> (Inr (json_response 200 (JObj [(''items'', items)])), w1)))"
  using assms
  unfolding list_drafts_def list_drafts_variables_def
  by (simp add: try_catch_def get_def bind_thrown_def split: sum.split)

lemma list_drafts_requests:
  assumes "\<not> nullish req_query"
    and "buildDraftQuery (js_member req_query ''since'') (js_member req_query ''until'') = Inr query"
    and "first_variable (js_member req_query ''first'') = Inr n"
  shows "requests (snd (list_drafts post req_query w)) =
     requests w @ [(LIST_DRAFTS, list_drafts_variables n query)]"
proof -
  obtain r w1 where sg: "shopifyGraphQL post LIST_DRAFTS (list_drafts_variables n query) w = (r, w1)"
    by (cases "shopifyGraphQL post LIST_DRAFTS (list_drafts_variables n query) w")
  have "requests w1 = requests w @ [(LIST_DRAFTS, list_drafts_variables n query)]"
    using shopifyGraphQL_requests [of "list_drafts_variables n query" post LIST_DRAFTS w] sg
    by (simp add: list_drafts_variables_def)
  then show ?thesis
    by (simp add: list_drafts_unfold [OF assms sg] split: sum.split)
qed

lemma list_drafts_posted:
  assumes "requests (snd (list_drafts post req_query w)) = requests w @ [(d, v)]"
  obtains query n where "\<not> nullish req_query"
    and "buildDraftQuery (js_member req_query ''since'') (js_member req_query ''until'') = Inr query"
    and "first_variable (js_member req_query ''first'') = Inr n"
    and "d = LIST_DRAFTS" and "v = list_drafts_variables n query"
proof -
  have nn: "\<not> nullish req_query"
  proof
    assume "nullish req_query"
    then have "list_drafts post req_query w = (Inr (generic_500 ''failed to list drafts''), w)"
      by (intro list_drafts_throws) simp
    with assms show False by simp
  qed
  obtain query where q:
      "buildDraftQuery (js_member req_query ''since'') (js_member req_query ''until'') = Inr query"
  proof (cases "buildDraftQuery (js_member req_query ''since'') (js_member req_query ''until'')")
    case (Inl e)
    then have "list_drafts post req_query w = (Inr (generic_500 ''failed to list drafts''), w)"
      by (intro list_drafts_throws [of _ e]) simp
    with assms show ?thesis by simp
  next
    case (Inr query)
    then show ?thesis by (rule that)
  qed
  obtain n where n: "first_variable (js_member req_query ''first'') = Inr n"
  proof (cases "first_variable (js_member req_query ''first'')")
    case (Inl e)
    then have "list_drafts post req_query w = (Inr (generic_500 ''failed to list drafts''), w)"
      by (intro list_drafts_throws [of _ e]) simp
    with assms show ?thesis by simp
  next
    case (Inr n)
    then show ?thesis by (rule that)
  qed
  from assms have "d = LIST_DRAFTS" "v = list_drafts_variables n query"
    by (simp_all add: list_drafts_requests [OF nn q n])
  with nn q n show ?thesis
    by (rule that)
qed

lemma toGid_draft_order:
  "toGid (JStr ''DraftOrder'') (JStr param) =
     Inr (if startsWith param ''gid://'' then param else ''gid://shopify/DraftOrder/'' @ param)"
  by (simp add: toGid_def bind_thrown_def)

lemma fetch_job_unfold:
  assumes "toGid (JStr ''DraftOrder'') (JStr param) = Inr gid"
    and "shopifyGraphQL post DRAFT_FOR_PICK (fetch_job_variables gid) w = (r, w1)"
  shows "fetch_job post param w =
     (case r of
        Inl e \<Rightarrow> (Inr (json_response 500 (JObj [(''error'', JStr ''Failed to fetch draft'')])), w1)
      | Inr data \<Rightarrow>
         if \<not> truthy (opt data ''draftOrder'')
         then (Inr (json_response 404 (JObj [(''error'', JStr ''Draft not found'')])), w1)
         else (case js_map pickLine
                      (js_or (opt (js_member (opt data ''draftOrder'') ''lineItems'') ''edges'')
                             (JArr [])) of
            Inl e \<Rightarrow> (Inr (json_response 500 (JObj [(''error'', JStr ''Failed to fetch draft'')])), w1)
          | Inr lines \<Rightarrow> (Inr (json_response 200
               (JObj [(''draftId'', js_member (opt data ''draftOrder'') ''id''),
                      (''shippingAddress'', js_member (opt data ''draftOrder'') ''shippingAddress''),
                      (''lines'', lines)])), w1)))"
  using assms
  unfolding fetch_job_def fetch_job_variables_def
  by (simp add: try_catch_def bind_thrown_def Let_def split: sum.split)

lemma fetch_job_requests:
  assumes "toGid (JStr ''DraftOrder'') (JStr param) = Inr gid"
  shows "requests (snd (fetch_job post param w)) =
     requests w @ [(DRAFT_FOR_PICK, fetch_job_variables gid)]"
proof -
  obtain r w1 where sg: "shopifyGraphQL post DRAFT_FOR_PICK (fetch_job_variables gid) w = (r, w1)"
    by (cases "shopifyGraphQL post DRAFT_FOR_PICK (fetch_job_variables gid) w")
  have "requests w1 = requests w @ [(DRAFT_FOR_PICK, fetch_job_variables gid)]"
    using shopifyGraphQL_requests [of "fetch_job_variables gid" post DRAFT_FOR_PICK w] sg
    by (simp add: fetch_job_variables_def)
  then show ?thesis
    by (simp add: fetch_job_unfold [OF assms sg] split: sum.split)
qed

lemma fetch_job_posted:
  assumes "requests (snd (fetch_job post param w)) = requests w @ [(d, v)]"
  obtains gid where "toGid (JStr ''DraftOrder'') (JStr param) = Inr gid"
    and "d = DRAFT_FOR_PICK" and "v = fetch_job_variables gid"
proof -
  obtain gid where g: "toGid (JStr ''DraftOrder'') (JStr param) = Inr gid"
    by (simp add: toGid_draft_order)
  from assms have "d = DRAFT_FOR_PICK" "v = fetch_job_variables gid"
    by (simp_all add: fetch_job_requests [OF g])
  with g show ?thesis
    by (rule that)
qed

lemma complete_draft_no_id:
  assumes "nullish req_body \<or> \<not> truthy (js_member req_body ''draftId'')"
  shows "complete_draft post req_body w =
     (if nullish req_body
      then (Inr (json_response 500 (JObj [(''error'', JStr ''Failed to complete draft'')])), w)
      else (Inr (json_response 400 (JObj [(''error'', JStr ''draftId required'')])), w))"
  using assms
  unfolding complete_draft_def
  by (auto simp add: try_catch_def get_def Let_def)

lemma complete_draft_throws:
  assumes "\<not> nullish req_body" and "truthy (js_member req_body ''draftId'')"
    and "toGid (JStr ''DraftOrder'') (js_member req_body ''draftId'') = Inl e"
  shows "complete_draft post req_body w = (Inr (generic_500 ''Failed to complete draft''), w)"
  using assms
  unfolding complete_draft_def
  by (simp add: try_catch_def get_def Let_def generic_500_def)

lemma complete_draft_unfold:
  assumes "\<not> nullish req_body" and "truthy (js_member req_body ''draftId'')"
    and "toGid (JStr ''DraftOrder'') (js_member req_body ''draftId'') = Inr gid"
    and "shopifyGraphQL post COMPLETE_DRAFT (complete_draft_variables gid req_body) w = (r, w1)"
  shows "complete_draft post req_body w =
     (case r of
        Inl e \<Rightarrow> (Inr (json_response 500 (JObj [(''error'', JStr ''Failed to complete draft'')])), w1)
      | Inr data \<Rightarrow>
         if truthy (opt (opt (opt data ''draftOrderComplete'') ''userErrors'') ''length'')
         then (Inr (json_response 400
                 (JObj [(''errors'', js_member (opt data ''draftOrderComplete'') ''userErrors'')])), w1)
         else (Inr (json_response 200
                 (JObj [(''order'', opt (opt data ''draftOrderComplete'') ''order'')])), w1))"
  using assms
  unfolding complete_draft_def complete_draft_variables_def
  by (simp add: try_catch_def get_def Let_def split: sum.split)

lemma complete_draft_requests:
  assumes "\<not> nullish req_body" and "truthy (js_member req_body ''draftId'')"
    and "toGid (JStr ''DraftOrder'') (js_member req_body ''draftId'') = Inr gid"
  shows "requests (snd (complete_draft post req_body w)) =
     requests w @ [(COMPLETE_DRAFT, complete_draft_variables gid req_body)]"
proof -
  obtain r w1 where sg:
      "shopifyGraphQL post COMPLETE_DRAFT (complete_draft_variables gid req_body) w = (r, w1)"
    by (cases "shopifyGraphQL post COMPLETE_DRAFT (complete_draft_variables gid req_body) w")
  have "requests w1 = requests w @ [(COMPLETE_DRAFT, complete_draft_variables gid req_body)]"
    using shopifyGraphQL_requests [of "complete_draft_variables gid req_body" post COMPLETE_DRAFT w] sg
    by (simp add: complete_draft_variables_def)
  then show ?thesis
    by (simp add: complete_draft_unfold [OF assms sg] split: sum.split)
qed

lemma complete_draft_posted:
  assumes "requests (snd (complete_draft post req_body w)) = requests w @ [(d, v)]"
  obtains gid where "\<not> nullish req_body" and "truthy (js_member req_body ''draftId'')"
    and "toGid (JStr ''DraftOrder'') (js_member req_body ''draftId'') = Inr gid"
    and "d = COMPLETE_DRAFT" and "v = complete_draft_variables gid req_body"
proof -
  have both: "\<not> (nullish req_body \<or> \<not> truthy (js_member req_body ''draftId''))"
  proof
    assume "nullish req_body \<or> \<not> truthy (js_member req_body ''draftId'')"
    then have "snd (complete_draft post req_body w) = w"
      by (simp add: complete_draft_no_id)
    with assms show False by simp
  qed
  then have nn: "\<not> nullish req_body" and tr: "truthy (js_member req_body ''draftId'')"
    by simp_all
  obtain gid where g: "toGid (JStr ''DraftOrder'') (js_member req_body ''draftId'') = Inr gid"
  proof (cases "toGid (JStr ''DraftOrder'') (js_member req_body ''draftId'')")
    case (Inl e)
    then have "complete_draft post req_body w = (Inr (generic_500 ''Failed to complete draft''), w)"
      using nn tr by (intro complete_draft_throws)
    with assms show ?thesis by simp
  next
    case (Inr gid)
    then show ?thesis by (rule that)
  qed
  from assms have "d = COMPLETE_DRAFT" "v = complete_draft_variables gid req_body"
    by (simp_all add: complete_draft_requests [OF nn tr g])
  with nn tr g show ?thesis
    by (rule that)
qed

lemma list_drafts_failure:
  assumes "requests (snd (list_drafts post req_query w)) = requests w @ [(d, v)]"
    and "upstream_failure (post d v)"
  shows "fst (list_drafts post req_query w) = Inr (generic_500 ''failed to list drafts'')"
proof -
  from assms(1) obtain query n where nn: "\<not> nullish req_query"
    and q: "buildDraftQuery (js_member req_query ''since'') (js_member req_query ''until'') = Inr query"
    and n: "first_variable (js_member req_query ''first'') = Inr n"
    and dv: "d = LIST_DRAFTS" "v = list_drafts_variables n query"
    by (rule list_drafts_posted)
  obtain r w1 where sg: "shopifyGraphQL post LIST_DRAFTS (list_drafts_variables n query) w = (r, w1)"
    by (cases "shopifyGraphQL post LIST_DRAFTS (list_drafts_variables n query) w")
  have "list_drafts_variables n query \<noteq> JUndefined"
    by (simp add: list_drafts_variables_def)
  with assms(2) dv obtain e where
      "fst (shopifyGraphQL post LIST_DRAFTS (list_drafts_variables n query) w) = Inl e"
    using shopifyGraphQL_failure by blast
  with sg have "r = Inl e"
    by simp
  then show ?thesis
    by (simp add: list_drafts_unfold [OF nn q n sg] generic_500_def)
qed

lemma fetch_job_failure:
  assumes "requests (snd (fetch_job post param w)) = requests w @ [(d, v)]"
    and "upstream_failure (post d v)"
  shows "fst (fetch_job post param w) = Inr (generic_500 ''Failed to fetch draft'')"
proof -
  from assms(1) obtain gid where g: "toGid (JStr ''DraftOrder'') (JStr param) = Inr gid"
    and dv: "d = DRAFT_FOR_PICK" "v = fetch_job_variables gid"
    by (rule fetch_job_posted)
  obtain r w1 where sg: "shopifyGraphQL post DRAFT_FOR_PICK (fetch_job_variables gid) w = (r, w1)"
    by (cases "shopifyGraphQL post DRAFT_FOR_PICK (fetch_job_variables gid) w")
  have "fetch_job_variables gid \<noteq> JUndefined"
    by (simp add: fetch_job_variables_def)
  with assms(2) dv obtain e where
      "fst (shopifyGraphQL post DRAFT_FOR_PICK (fetch_job_variables gid) w) = Inl e"
    using shopifyGraphQL_failure by blast
  with sg have "r = Inl e"
    by simp
  then show ?thesis
    by (simp add: fetch_job_unfold [OF g sg] generic_500_def)
qed

lemma complete_draft_failure:
  assumes "requests (snd (complete_draft post req_body w)) = requests w @ [(d, v)]"
    and "upstream_failure (post d v)"
  shows "fst (complete_draft post req_body w) = Inr (generic_500 ''Failed to complete draft'')"
proof -
  from assms(1) obtain gid where nn: "\<not> nullish req_body"
    and tr: "truthy (js_member req_body ''draftId'')"
    and g: "toGid (JStr ''DraftOrder'') (js_member req_body ''draftId'') = Inr gid"
    and dv: "d = COMPLETE_DRAFT" "v = complete_draft_variables gid req_body"
    by (rule complete_draft_posted)
  obtain r w1 where sg:
      "shopifyGraphQL post COMPLETE_DRAFT (complete_draft_variables gid req_body) w = (r, w1)"
    by (cases "shopifyGraphQL post COMPLETE_DRAFT (complete_draft_variables gid req_body) w")
  have "complete_draft_variables gid req_body \<noteq> JUndefined"
    by (simp add: complete_draft_variables_def)
  with assms(2) dv obtain e where
      "fst (shopifyGraphQL post COMPLETE_DRAFT (complete_draft_variables gid req_body) w) = Inl e"
    using shopifyGraphQL_failure by blast
  with sg have "r = Inl e"
    by simp
  then show ?thesis
    by (simp add: complete_draft_unfold [OF nn tr g sg] generic_500_def)
qed

section \<open>The page size of the listing\<close>

lemma first_variable_cases:
  "first_variable first = (case ToNumber first of
       Inl e \<Rightarrow> Inl e
     | Inr n \<Rightarrow> Inr (case n of
           NaN \<Rightarrow> Fin 25
         | PInf \<Rightarrow> Fin 250
         | NInf \<Rightarrow> NInf
         | Fin x \<Rightarrow> if x = 0 then Fin 25 else if 250 < x then Fin 250 else Fin x))"
  by (simp add: first_variable_def Math_min_def js_or_def bind_thrown_def
        split: sum.split jsnum.split)

lemma posted_first:
  assumes "requests (snd (list_drafts post req_query w)) = requests w @ [(d, v)]"
  obtains n where "first_variable (js_member req_query ''first'') = Inr n"
    and "js_member v ''first'' = JNum n" and "wire_first v = wire_number n"
proof -
  from assms obtain query n where n: "first_variable (js_member req_query ''first'') = Inr n"
    and v: "v = list_drafts_variables n query"
    by (rule list_drafts_posted)
  from v have "js_member v ''first'' = JNum n" "wire_first v = wire_number n"
    by (simp_all add: list_drafts_variables_def wire_first_def js_member_def)
  with n show ?thesis
    by (rule that)
qed

lemma query_without_dates:
  assumes "map_of q ''since'' = None" and "map_of q ''until'' = None"
  shows "buildDraftQuery (js_member (JObj q) ''since'') (js_member (JObj q) ''until'') =
           Inr ''status:open''"
  using assms by (simp add: buildDraftQuery_def bind_thrown_def js_member_def)

text \<open>
  C3. On \<open>GET /api/pick/drafts\<close>, whenever the handler posts its request, the value
  sent upstream as \<open>first\<close> is 25 when the query has no \<open>first\<close>, 250 when
  \<open>Number(first)\<close> is a number above 250 (infinity included), and 25 when it is \<open>NaN\<close>,
  that is when the value is not numeric. (When a conversion throws, for a parameter that
  is an object with an own \<open>toString\<close>, nothing is posted.) The value is the same in
  the variables handed to \<open>axios.post\<close> and on the wire.
\<close>

theorem list_drafts_page_size:
  assumes "requests (snd (list_drafts post req_query w)) = requests w @ [(d, v)]"
  shows "(js_member req_query ''first'' = JUndefined \<longrightarrow>
            js_member v ''first'' = JNum (Fin 25) \<and> wire_first v = JNum (Fin 25)) \<and>
         (ToNumber (js_member req_query ''first'') = Inr (Fin x) \<and> 250 < x \<longrightarrow>
            js_member v ''first'' = JNum (Fin 250) \<and> wire_first v = JNum (Fin 250)) \<and>
         (ToNumber (js_member req_query ''first'') = Inr PInf \<longrightarrow>
            js_member v ''first'' = JNum (Fin 250) \<and> wire_first v = JNum (Fin 250)) \<and>
         (ToNumber (js_member req_query ''first'') = Inr NaN \<longrightarrow>
            js_member v ''first'' = JNum (Fin 25) \<and> wire_first v = JNum (Fin 25))"
proof -
  from assms obtain n where "first_variable (js_member req_query ''first'') = Inr n"
    and "js_member v ''first'' = JNum n" and "wire_first v = wire_number n"
    by (rule posted_first)
  then show ?thesis
    by (auto simp add: first_variable_cases wire_number_def)
qed

theorem list_drafts_page_size_witness:
  "requests (snd (list_drafts (\<lambda>d v. Rejected ''timeout'' None) (JObj [(''first'', JStr ''300'')])
     no_effects)) =
     [(LIST_DRAFTS, JObj [(''first'', JNum (Fin 250)), (''query'', JStr ''status:open'')])] \<and>
   wire_first (JObj [(''first'', JNum (Fin 250)), (''query'', JStr ''status:open'')]) =
     JNum (Fin 250) \<and>
   requests (snd (list_drafts (\<lambda>d v. Rejected ''timeout'' None) (JObj [(''first'', JStr ''ten'')])
     no_effects)) =
     [(LIST_DRAFTS, JObj [(''first'', JNum (Fin 25)), (''query'', JStr ''status:open'')])] \<and>
   requests (snd (list_drafts (\<lambda>d v. Rejected ''timeout'' None) (JObj [])
     no_effects)) =
     [(LIST_DRAFTS, JObj [(''first'', JNum (Fin 25)), (''query'', JStr ''status:open'')])]"
proof -
  let ?post = "\<lambda>(d :: gql_doc) (v :: jsval). Rejected ''timeout'' None"
  have nn: "\<not> nullish (JObj q)" for q
    by (simp add: nullish_def)
  have a: "ToNumber (js_member (JObj [(''first'', JStr ''300'')]) ''first'') = Inr (Fin 300)"
    by code_simp
  have b: "ToNumber (js_member (JObj [(''first'', JStr ''ten'')]) ''first'') = Inr NaN"
    by code_simp
  have c: "js_member (JObj []) ''first'' = JUndefined"
    by (simp add: js_member_def)
  have fa: "first_variable (js_member (JObj [(''first'', JStr ''300'')]) ''first'') = Inr (Fin 250)"
    by (simp add: first_variable_cases a)
  have fb: "first_variable (js_member (JObj [(''first'', JStr ''ten'')]) ''first'') = Inr (Fin 25)"
    by (simp add: first_variable_cases b)
  have fc: "first_variable (js_member (JObj []) ''first'') = Inr (Fin 25)"
    by (simp add: first_variable_cases c)
  note ra = list_drafts_requests [OF nn query_without_dates fa, of ?post no_effects, simplified]
  note rb = list_drafts_requests [OF nn query_without_dates fb, of ?post no_effects, simplified]
  note rc = list_drafts_requests [OF nn query_without_dates fc, of ?post no_effects, simplified]
  show ?thesis
    using list_drafts_page_size [OF ra, of 300] list_drafts_page_size [OF rb, of 0]
          list_drafts_page_size [OF rc, of 0] a b c ra rb rc
    by (simp add: list_drafts_variables_def no_effects_def)
qed

text \<open>
  C10, as amended. Only an upper bound is applied: whenever the handler posts its
  request, a \<open>first\<close> that \<open>Number\<close> reads as 0 gives the default 25, and one that it
  reads as a finite negative number is sent as that number. Negative infinity is put into
  the variables as it is, and reaches the upstream service as \<open>null\<close>.
\<close>

theorem list_drafts_no_lower_bound:
  assumes "requests (snd (list_drafts post req_query w)) = requests w @ [(d, v)]"
  shows "(ToNumber (js_member req_query ''first'') = Inr (Fin 0) \<longrightarrow>
            js_member v ''first'' = JNum (Fin 25) \<and> wire_first v = JNum (Fin 25)) \<and>
         (ToNumber (js_member req_query ''first'') = Inr (Fin x) \<and> x < 0 \<longrightarrow>
            js_member v ''first'' = JNum (Fin x) \<and> wire_first v = JNum (Fin x)) \<and>
         (ToNumber (js_member req_query ''first'') = Inr NInf \<longrightarrow>
            js_member v ''first'' = JNum NInf \<and> wire_first v = JNull)"
proof -
  from assms obtain n where "first_variable (js_member req_query ''first'') = Inr n"
    and "js_member v ''first'' = JNum n" and "wire_first v = wire_number n"
    by (rule posted_first)
  then show ?thesis
    by (auto simp add: first_variable_cases wire_number_def)
qed

theorem list_drafts_no_lower_bound_witness:
  "requests (snd (list_drafts (\<lambda>d v. Rejected ''timeout'' None) (JObj [(''first'', JStr ''0'')])
     no_effects)) =
     [(LIST_DRAFTS, JObj [(''first'', JNum (Fin 25)), (''query'', JStr ''status:open'')])] \<and>
   requests (snd (list_drafts (\<lambda>d v. Rejected ''timeout'' None) (JObj [(''first'', JStr ''-5'')])
     no_effects)) =
     [(LIST_DRAFTS, JObj [(''first'', JNum (Fin (- 5))), (''query'', JStr ''status:open'')])] \<and>
   wire_first (JObj [(''first'', JNum (Fin (- 5))), (''query'', JStr ''status:open'')]) =
     JNum (Fin (- 5))"
proof -
  let ?post = "\<lambda>(d :: gql_doc) (v :: jsval). Rejected ''timeout'' None"
  have nn: "\<not> nullish (JObj q)" for q
    by (simp add: nullish_def)
  have a: "ToNumber (js_member (JObj [(''first'', JStr ''0'')]) ''first'') = Inr (Fin 0)"
    by code_simp
  have b: "ToNumber (js_member (JObj [(''first'', JStr ''-5'')]) ''first'') = Inr (Fin (- 5))"
    by code_simp
  have fa: "first_variable (js_member (JObj [(''first'', JStr ''0'')]) ''first'') = Inr (Fin 25)"
    by (simp add: first_variable_cases a)
  have fb: "first_variable (js_member (JObj [(''first'', JStr ''-5'')]) ''first'') = Inr (Fin (- 5))"
    by (simp add: first_variable_cases b)
  note ra = list_drafts_requests [OF nn query_without_dates fa, of ?post no_effects, simplified]
  note rb = list_drafts_requests [OF nn query_without_dates fb, of ?post no_effects, simplified]
  show ?thesis
    using list_drafts_no_lower_bound [OF ra, of 0] list_drafts_no_lower_bound [OF rb, of "- 5"]
          a b ra rb
    by (simp add: list_drafts_variables_def no_effects_def)
qed

text \<open>
  C10 as stated fails at \<open>first=-Infinity\<close>: \<open>Number\<close> reads a negative number, no bound
  is applied, and the request is posted with it; but the upstream service reads \<open>null\<close>,
  not that number.
\<close>

theorem list_drafts_negative_infinity:
  "ToNumber (JStr ''-Infinity'') = Inr NInf \<and> num_less NInf (Fin 0) \<and>
   requests (snd (list_drafts timeout_upstream (JObj [(''first'', JStr ''-Infinity'')])
     no_effects)) =
     [(LIST_DRAFTS, JObj [(''first'', JNum NInf), (''query'', JStr ''status:open'')])] \<and>
   wire_first (JObj [(''first'', JNum NInf), (''query'', JStr ''status:open'')]) = JNull \<and>
   JNull \<noteq> JNum NInf"
proof -
  have nn: "\<not> nullish (JObj q)" for q
    by (simp add: nullish_def)
  have a: "ToNumber (JStr ''-Infinity'') = Inr NInf"
    by code_simp
  then have fa: "first_variable (js_member (JObj [(''first'', JStr ''-Infinity'')]) ''first'') =
      Inr NInf"
    by (simp add: first_variable_cases js_member_def)
  note ra = list_drafts_requests [OF nn query_without_dates fa, of timeout_upstream no_effects,
      simplified]
  have w: "wire_first (JObj [(''first'', JNum NInf), (''query'', JStr ''status:open'')]) = JNull"
    by (simp add: wire_first_def wire_number_def js_member_def)
  from a ra w show ?thesis
    by (simp add: list_drafts_variables_def no_effects_def)
qed

section \<open>The listing\<close>

lemma add_quantity_integer:
  assumes "integer_quantity l" and "\<bar>a + quantity l\<bar> \<le> 2 ^ 53"
  shows "add_quantity (JNum (Fin (of_int a))) l = Inr (JNum (Fin (of_int (a + quantity l))))"
proof -
  from assms(1) have q: "opt (opt l ''node'') ''quantity'' = JNum (Fin (of_int (quantity l)))"
    by (simp add: integer_quantity_def)
  have o: "js_or (JNum (Fin (of_int (quantity l)))) (JNum (Fin 0)) = JNum (Fin (of_int (quantity l)))"
    by (simp add: js_or_def)
  have "round64 (of_int a + of_int (quantity l)) = Fin (of_int (a + quantity l))"
    using round64_of_int [OF assms(2)] by simp
  then show ?thesis
    by (simp add: add_quantity_def q o js_plus_def bind_thrown_def)
qed

lemma reduce_add_quantity:
  assumes "list_all integer_quantity ls"
    and "\<bar>a\<bar> + sum_list (map (\<lambda>l. \<bar>quantity l\<bar>) ls) \<le> 2 ^ 53"
  shows "reduce_throwing add_quantity (JNum (Fin (of_int a))) ls =
           Inr (JNum (Fin (of_int (a + sum_list (map quantity ls)))))"
  using assms
proof (induction ls arbitrary: a)
  case Nil
  then show ?case by simp
next
  case (Cons l ls)
  have nn: "0 \<le> sum_list (map (\<lambda>l. \<bar>quantity l\<bar>) ls)"
    by (rule sum_list_nonneg) auto
  from Cons.prems(2) nn have b: "\<bar>a + quantity l\<bar> \<le> 2 ^ 53"
    by simp
  from Cons.prems(2) have c: "\<bar>a + quantity l\<bar> + sum_list (map (\<lambda>l. \<bar>quantity l\<bar>) ls) \<le> 2 ^ 53"
    by simp
  from Cons.prems(1) have i: "integer_quantity l" and r: "list_all integer_quantity ls"
    by simp_all
  have "reduce_throwing add_quantity (JNum (Fin (of_int a))) (l # ls) =
          reduce_throwing add_quantity (JNum (Fin (of_int (a + quantity l)))) ls"
    by (simp only: reduce_throwing.simps add_quantity_integer [OF i b] sum.case)
  also have "\<dots> = Inr (JNum (Fin (of_int (a + quantity l + sum_list (map quantity ls)))))"
    by (rule Cons.IH [OF r c])
  finally show ?case
    by (simp add: add.assoc)
qed

lemma totalLinesHint_sum:
  assumes "order_edge e"
  shows "totalLinesHint (opt e ''node'') =
           Inr (JNum (Fin (of_int (sum_list (map quantity (line_item_edges (opt e ''node'')))))))"
proof -
  let ?node = "opt e ''node''"
  let ?es = "opt (opt ?node ''lineItems'') ''edges''"
  from assms have nn: "\<not> nullish ?node"
    and shape: "nullish ?es \<or> is_array ?es"
    and ints: "list_all integer_quantity (line_item_edges ?node)"
    and bound: "sum_list (map (\<lambda>l. \<bar>quantity l\<bar>) (line_item_edges ?node)) \<le> 2 ^ 53"
    by (simp_all add: order_edge_def Let_def)
  from nn have li: "get ?node ''lineItems'' = Inr (opt ?node ''lineItems'')"
    by (simp add: get_def opt_def)
  show ?thesis
  proof (cases "nullish ?es")
    case True
    then have "line_item_edges ?node = []"
      by (auto simp: line_item_edges_def nullish_def)
    with True show ?thesis
      by (simp add: totalLinesHint_def li bind_thrown_def js_or_def)
  next
    case False
    with shape obtain ls where ls: "?es = JArr ls"
      by (cases ?es) auto
    then have le: "line_item_edges ?node = ls"
      by (simp add: line_item_edges_def)
    from ints bound le have
      "reduce_throwing add_quantity (JNum (Fin (of_int 0))) ls =
         Inr (JNum (Fin (of_int (0 + sum_list (map quantity ls)))))"
      by (intro reduce_add_quantity) simp_all
    then have f: "reduce_throwing add_quantity (JNum (Fin 0)) ls =
        Inr (JNum (Fin (of_int (sum_list (map quantity ls)))))"
      by simp
    from False ls show ?thesis
      by (simp add: totalLinesHint_def li bind_thrown_def f le js_or_def)
  qed
qed

lemma draftSummary_order_edge:
  assumes "order_edge e"
  shows "draftSummary e = Inr (DraftSummary e)"
proof -
  from assms have nn: "\<not> nullish (opt e ''node'')"
    by (simp add: order_edge_def Let_def)
  then have ne: "\<not> nullish e"
    by (auto simp: opt_def nullish_def)
  then have n: "get e ''node'' = Inr (opt e ''node'')"
    by (simp add: get_def opt_def)
  from nn have g: "get (opt e ''node'') k = Inr (js_member (opt e ''node'') k)" for k
    by (simp add: get_def)
  show ?thesis
    by (simp add: draftSummary_def DraftSummary_def Let_def n g bind_thrown_def
          totalLinesHint_sum [OF assms])
qed

lemma map_throwing_all:
  assumes "\<And>x. x \<in> set xs \<Longrightarrow> f x = Inr (g x)"
  shows "map_throwing f xs = Inr (map g xs)"
  using assms by (induction xs) simp_all

text \<open>
  C4. When the listing was posted and the upstream answer, free of top-level errors, holds
  N order edges, the handler answers 200 with an \<open>items\<close> array of the N summaries of
  these edges, in their order; the \<open>totalLinesHint\<close> of each is the sum of the quantities
  of the line-item edges returned for that order, 0 when there are none.
\<close>

theorem list_drafts_items:
  assumes "requests (snd (list_drafts post req_query w)) = requests w @ [(d, v)]"
    and "post d v = Resolved data"
    and "\<not> truthy (opt data ''errors'')"
    and "opt (opt (opt data ''data'') ''draftOrders'') ''edges'' = JArr edges"
    and "list_all order_edge edges"
  shows "fst (list_drafts post req_query w) =
           Inr (json_response 200 (JObj [(''items'', JArr (map DraftSummary edges))])) \<and>
         length (map DraftSummary edges) = length edges \<and>
         (\<forall>i < length edges.
            js_member (map DraftSummary edges ! i) ''totalLinesHint'' =
              JNum (Fin (of_int (sum_list (map quantity
                (line_item_edges (opt (edges ! i) ''node'')))))))"
proof -
  have hint: "js_member (DraftSummary e) ''totalLinesHint'' =
      JNum (Fin (of_int (sum_list (map quantity (line_item_edges (opt e ''node''))))))" for e
    by (simp add: DraftSummary_def js_member_def Let_def)
  from assms(1) obtain query n where nn: "\<not> nullish req_query"
    and q: "buildDraftQuery (js_member req_query ''since'') (js_member req_query ''until'') = Inr query"
    and n: "first_variable (js_member req_query ''first'') = Inr n"
    and dv: "d = LIST_DRAFTS" "v = list_drafts_variables n query"
    by (rule list_drafts_posted)
  have vu: "list_drafts_variables n query \<noteq> JUndefined"
    by (simp add: list_drafts_variables_def)
  from assms(4) have dn: "\<not> nullish data"
    by (auto simp: opt_def nullish_def js_member_def)
  with assms(3) have ne: "\<not> truthy (js_member data ''errors'')"
    by (simp add: opt_def)
  have sg: "shopifyGraphQL post LIST_DRAFTS (list_drafts_variables n query) w =
              (Inr (js_member data ''data''),
               w\<lparr>requests := requests w @ [(LIST_DRAFTS, list_drafts_variables n query)]\<rparr>)"
    using shopifyGraphQL_ok [OF _ vu dn ne] assms(2) dv by simp
  from assms(4) dn have ed: "opt (opt (js_member data ''data'') ''draftOrders'') ''edges'' = JArr edges"
    by (simp add: opt_def)
  from assms(5) have "map_throwing draftSummary edges = Inr (map DraftSummary edges)"
    by (intro map_throwing_all draftSummary_order_edge) (simp add: list_all_iff)
  then have "js_map draftSummary (js_or (JArr edges) (JArr [])) = Inr (JArr (map DraftSummary edges))"
    by (simp add: js_map_def js_or_def)
  then show ?thesis
    by (simp add: list_drafts_unfold [OF nn q n sg] ed hint)
qed

theorem list_drafts_items_witness:
  "fst (list_drafts
         (\<lambda>d v. Resolved (JObj [(''data'', JObj [(''draftOrders'', JObj [(''edges'', JArr [
            JObj [(''node'', JObj [(''id'', JStr ''gid://shopify/DraftOrder/1''),
               (''lineItems'', JObj [(''edges'', JArr [
                  JObj [(''node'', JObj [(''quantity'', JNum (Fin 3))])],
                  JObj [(''node'', JObj [(''quantity'', JNum (Fin 4))])]])])])],
            JObj [(''node'', JObj [(''id'', JStr ''gid://shopify/DraftOrder/2''),
               (''lineItems'', JObj [(''edges'', JArr [])])])]])])])]))
         (JObj []) no_effects) =
     Inr (json_response 200 (JObj [(''items'', JArr [
        JObj [(''id'', JStr ''gid://shopify/DraftOrder/1''), (''createdAt'', JUndefined),
              (''email'', JUndefined), (''shipping'', JUndefined),
              (''totalLinesHint'', JNum (Fin 7))],
        JObj [(''id'', JStr ''gid://shopify/DraftOrder/2''), (''createdAt'', JUndefined),
              (''email'', JUndefined), (''shipping'', JUndefined),
              (''totalLinesHint'', JNum (Fin 0))]])]))"
proof -
  let ?e1 = "JObj [(''node'', JObj [(''id'', JStr ''gid://shopify/DraftOrder/1''),
               (''lineItems'', JObj [(''edges'', JArr [
                  JObj [(''node'', JObj [(''quantity'', JNum (Fin 3))])],
                  JObj [(''node'', JObj [(''quantity'', JNum (Fin 4))])]])])])]"
  let ?e2 = "JObj [(''node'', JObj [(''id'', JStr ''gid://shopify/DraftOrder/2''),
               (''lineItems'', JObj [(''edges'', JArr [])])])]"
  let ?data = "JObj [(''data'', JObj [(''draftOrders'', JObj [(''edges'', JArr [?e1, ?e2])])])]"
  let ?post = "\<lambda>(d :: gql_doc) (v :: jsval). Resolved ?data"
  have r: "requests (snd (list_drafts ?post (JObj []) no_effects)) =
             requests no_effects @ [(LIST_DRAFTS, list_drafts_variables (Fin 25) ''status:open'')]"
    by (rule list_drafts_requests)
      (simp_all add: nullish_def js_member_def buildDraftQuery_def bind_thrown_def
         first_variable_cases)
  have e: "\<not> truthy (opt ?data ''errors'')"
    by (simp add: opt_def nullish_def js_member_def)
  have u: "opt (opt (opt ?data ''data'') ''draftOrders'') ''edges'' = JArr [?e1, ?e2]"
    by (simp add: opt_def nullish_def js_member_def)
  have o: "list_all order_edge [?e1, ?e2]"
    by (simp add: order_edge_def integer_quantity_def quantity_def line_item_edges_def
          opt_def nullish_def js_member_def)
  have s: "map DraftSummary [?e1, ?e2] = [
        JObj [(''id'', JStr ''gid://shopify/DraftOrder/1''), (''createdAt'', JUndefined),
              (''email'', JUndefined), (''shipping'', JUndefined),
              (''totalLinesHint'', JNum (Fin 7))],
        JObj [(''id'', JStr ''gid://shopify/DraftOrder/2''), (''createdAt'', JUndefined),
              (''email'', JUndefined), (''shipping'', JUndefined),
              (''totalLinesHint'', JNum (Fin 0))]]"
    by (simp add: DraftSummary_def quantity_def line_item_edges_def
          opt_def nullish_def js_member_def)
  show ?thesis
    using list_drafts_items [where post = ?post and req_query = "JObj []" and w = no_effects
            and d = LIST_DRAFTS and v = "list_drafts_variables (Fin 25) ''status:open''" and data = ?data
            and edges = "[?e1, ?e2]", OF r _ e u o]
    unfolding s by simp
qed

section \<open>Errors\<close>

text \<open>
  C5. Whenever one of the three data handlers has posted its request and the upstream
  call fails (the transport fails, or the answer carries a top-level \<open>errors\<close> list),
  the handler answers 500 with its own fixed body, which holds nothing of the upstream
  error, and it answers: nothing is thrown out of it.
\<close>

theorem upstream_failure_answers_500:
  assumes "upstream_failure (post d v)"
  shows "(requests (snd (list_drafts post req_query w)) = requests w @ [(d, v)] \<longrightarrow>
            fst (list_drafts post req_query w) = Inr (generic_500 ''failed to list drafts'')) \<and>
         (requests (snd (fetch_job post param w)) = requests w @ [(d, v)] \<longrightarrow>
            fst (fetch_job post param w) = Inr (generic_500 ''Failed to fetch draft'')) \<and>
         (requests (snd (complete_draft post req_body w)) = requests w @ [(d, v)] \<longrightarrow>
            fst (complete_draft post req_body w) = Inr (generic_500 ''Failed to complete draft''))"
  using assms list_drafts_failure fetch_job_failure complete_draft_failure by blast

theorem upstream_failure_answers_500_witness:
  "fst (list_drafts (\<lambda>d v. Rejected ''timeout of 15000ms exceeded'' None) (JObj []) no_effects) =
     Inr (generic_500 ''failed to list drafts'') \<and>
   fst (fetch_job (\<lambda>d v. Resolved (JObj [(''errors'', JArr [JObj [(''message'', JStr ''Throttled'')]])]))
          ''42'' no_effects) =
     Inr (generic_500 ''Failed to fetch draft'') \<and>
   fst (complete_draft (\<lambda>d v. Rejected ''Request failed with status code 502'' (Some (502, JStr ''Bad Gateway'')))
          (JObj [(''draftId'', JStr ''42'')]) no_effects) =
     Inr (generic_500 ''Failed to complete draft'')"
proof -
  let ?p1 = "\<lambda>d v. Rejected ''timeout of 15000ms exceeded'' None"
  let ?p2 = "\<lambda>d v. Resolved (JObj [(''errors'', JArr [JObj [(''message'', JStr ''Throttled'')]])])"
  let ?p3 = "\<lambda>d v. Rejected ''Request failed with status code 502'' (Some (502, JStr ''Bad Gateway''))"
  have f1: "upstream_failure (?p1 d v)" for d :: gql_doc and v :: jsval
    by (simp add: upstream_failure_def)
  have f2: "upstream_failure (?p2 d v)" for d :: gql_doc and v :: jsval
    by (simp add: upstream_failure_def opt_def nullish_def js_member_def)
  have f3: "upstream_failure (?p3 d v)" for d :: gql_doc and v :: jsval
    by (simp add: upstream_failure_def)
  have r1: "requests (snd (list_drafts ?p1 (JObj []) no_effects)) =
              requests no_effects @ [(LIST_DRAFTS, list_drafts_variables (Fin 25) ''status:open'')]"
    by (rule list_drafts_requests)
      (simp_all add: nullish_def js_member_def buildDraftQuery_def bind_thrown_def
         first_variable_cases)
  have r2: "requests (snd (fetch_job ?p2 ''42'' no_effects)) =
              requests no_effects @ [(DRAFT_FOR_PICK, fetch_job_variables ''gid://shopify/DraftOrder/42'')]"
    by (rule fetch_job_requests) (simp add: toGid_draft_order startsWith_def)
  have r3: "requests (snd (complete_draft ?p3 (JObj [(''draftId'', JStr ''42'')]) no_effects)) =
              requests no_effects @
                [(COMPLETE_DRAFT, complete_draft_variables ''gid://shopify/DraftOrder/42''
                   (JObj [(''draftId'', JStr ''42'')]))]"
    by (rule complete_draft_requests)
      (simp_all add: nullish_def js_member_def toGid_draft_order startsWith_def)
  show ?thesis
    using upstream_failure_answers_500 [where post = ?p1 and d = LIST_DRAFTS
            and v = "list_drafts_variables (Fin 25) ''status:open''" and req_query = "JObj []"
            and w = no_effects]
          upstream_failure_answers_500 [where post = ?p2 and d = DRAFT_FOR_PICK
            and v = "fetch_job_variables ''gid://shopify/DraftOrder/42''" and param = "''42''"
            and w = no_effects]
          upstream_failure_answers_500 [where post = ?p3 and d = COMPLETE_DRAFT
            and v = "complete_draft_variables ''gid://shopify/DraftOrder/42''
                       (JObj [(''draftId'', JStr ''42'')])"
            and req_body = "JObj [(''draftId'', JStr ''42'')]" and w = no_effects]
          f1 f2 f3 r1 r2 r3
    by blast
qed

text \<open>
  C6. When the completion mutation was posted and its answer, free of top-level errors,
  lists one or more \<open>userErrors\<close>, the handler answers 400 with exactly that list under
  \<open>errors\<close>, and the body has no \<open>order\<close>.
\<close>

theorem complete_draft_user_errors:
  assumes "requests (snd (complete_draft post req_body w)) = requests w @ [(d, v)]"
    and "post d v = Resolved data"
    and "\<not> truthy (opt data ''errors'')"
    and "opt (opt (opt data ''data'') ''draftOrderComplete'') ''userErrors'' = JArr (e # es)"
  shows "fst (complete_draft post req_body w) =
           Inr (json_response 400 (JObj [(''errors'', JArr (e # es))])) \<and>
         js_member (JObj [(''errors'', JArr (e # es))]) ''order'' = JUndefined"
proof -
  from assms(1) obtain gid where nn: "\<not> nullish req_body"
    and tr: "truthy (js_member req_body ''draftId'')"
    and g: "toGid (JStr ''DraftOrder'') (js_member req_body ''draftId'') = Inr gid"
    and dv: "d = COMPLETE_DRAFT" "v = complete_draft_variables gid req_body"
    by (rule complete_draft_posted)
  have vu: "complete_draft_variables gid req_body \<noteq> JUndefined"
    by (simp add: complete_draft_variables_def)
  from assms(4) have dn: "\<not> nullish data"
    by (auto simp: opt_def nullish_def js_member_def)
  with assms(3) have ne: "\<not> truthy (js_member data ''errors'')"
    by (simp add: opt_def)
  have sg: "shopifyGraphQL post COMPLETE_DRAFT (complete_draft_variables gid req_body) w =
              (Inr (js_member data ''data''),
               w\<lparr>requests := requests w @ [(COMPLETE_DRAFT, complete_draft_variables gid req_body)]\<rparr>)"
    using shopifyGraphQL_ok [OF _ vu dn ne] assms(2) dv by simp
  from assms(4) dn have ue:
      "opt (opt (js_member data ''data'') ''draftOrderComplete'') ''userErrors'' = JArr (e # es)"
    by (simp add: opt_def)
  then have on: "\<not> nullish (opt (js_member data ''data'') ''draftOrderComplete'')"
    by (auto simp: opt_def nullish_def js_member_def)
  from ue have len: "truthy (opt (opt (opt (js_member data ''data'') ''draftOrderComplete'') ''userErrors'') ''length'')"
    by (simp add: opt_def nullish_def js_member_def)
  from ue on have "js_member (opt (js_member data ''data'') ''draftOrderComplete'') ''userErrors'' = JArr (e # es)"
    by (simp add: opt_def [of "opt (js_member data ''data'') ''draftOrderComplete''"])
  with len show ?thesis
    by (simp add: complete_draft_unfold [OF nn tr g sg] js_member_def)
qed

theorem complete_draft_user_errors_witness:
  "fst (complete_draft
         (\<lambda>d v. Resolved (JObj [(''data'', JObj [(''draftOrderComplete'',
            JObj [(''order'', JNull),
                  (''userErrors'', JArr [JObj [(''field'', JNull),
                                               (''message'', JStr ''Draft order not found'')]])])])]))
         (JObj [(''draftId'', JStr ''42'')]) no_effects) =
     Inr (json_response 400
       (JObj [(''errors'', JArr [JObj [(''field'', JNull),
                                       (''message'', JStr ''Draft order not found'')]])]))"
proof -
  let ?data = "JObj [(''data'', JObj [(''draftOrderComplete'',
            JObj [(''order'', JNull),
                  (''userErrors'', JArr [JObj [(''field'', JNull),
                                               (''message'', JStr ''Draft order not found'')]])])])]"
  let ?post = "\<lambda>(d :: gql_doc) (v :: jsval). Resolved ?data"
  let ?body = "JObj [(''draftId'', JStr ''42'')]"
  have r: "requests (snd (complete_draft ?post ?body no_effects)) =
             requests no_effects @
               [(COMPLETE_DRAFT, complete_draft_variables ''gid://shopify/DraftOrder/42'' ?body)]"
    by (rule complete_draft_requests)
      (simp_all add: nullish_def js_member_def toGid_draft_order startsWith_def)
  have e: "\<not> truthy (opt ?data ''errors'')"
    by (simp add: opt_def nullish_def js_member_def)
  have u: "opt (opt (opt ?data ''data'') ''draftOrderComplete'') ''userErrors'' =
             JArr [JObj [(''field'', JNull), (''message'', JStr ''Draft order not found'')]]"
    by (simp add: opt_def nullish_def js_member_def)
  show ?thesis
    using complete_draft_user_errors [where post = ?post and req_body = ?body and w = no_effects
            and d = COMPLETE_DRAFT and v = "complete_draft_variables ''gid://shopify/DraftOrder/42'' ?body" and data = ?data
            and e = "JObj [(''field'', JNull), (''message'', JStr ''Draft order not found'')]"
            and es = "[]", OF r _ e u]
    by simp
qed

text \<open>
  C7. A completion request whose body (an object or an array, as \<open>express.json()\<close>
  parses one) has no \<open>draftId\<close> is answered 400 with \<open>{error: 'draftId required'}\<close>,
  and the world is left as it was: no request is posted, nothing is logged.
\<close>

theorem complete_draft_requires_draftId:
  assumes "\<not> nullish req_body" and "js_member req_body ''draftId'' = JUndefined"
  shows "complete_draft post req_body w =
           (Inr (json_response 400 (JObj [(''error'', JStr ''draftId required'')])), w)"
  using assms by (simp add: complete_draft_no_id)

theorem complete_draft_requires_draftId_witness:
  "complete_draft (\<lambda>d v. Rejected ''unreachable'' None)
     (JObj [(''paymentPending'', JBool False)]) no_effects =
   (Inr (json_response 400 (JObj [(''error'', JStr ''draftId required'')])), no_effects)"
  using complete_draft_requires_draftId [where req_body = "JObj [(''paymentPending'', JBool False)]"
          and post = "\<lambda>d v. Rejected ''unreachable'' None" and w = no_effects]
  by (simp add: nullish_def js_member_def)

text \<open>
  C8. When the upstream answer to a job fetch has no draft order (\<open>draftOrder\<close> is
  \<open>null\<close> or missing from the data), the handler answers 404 with an error body, which has
  no \<open>lines\<close>.
\<close>

theorem fetch_job_not_found:
  assumes "requests (snd (fetch_job post param w)) = requests w @ [(d, v)]"
    and "post d v = Resolved data"
    and "\<not> nullish data"
    and "\<not> truthy (js_member data ''errors'')"
    and "nullish (opt (js_member data ''data'') ''draftOrder'')"
  shows "fst (fetch_job post param w) =
           Inr (json_response 404 (JObj [(''error'', JStr ''Draft not found'')])) \<and>
         js_member (JObj [(''error'', JStr ''Draft not found'')]) ''lines'' = JUndefined"
proof -
  from assms(1) obtain gid where g: "toGid (JStr ''DraftOrder'') (JStr param) = Inr gid"
    and dv: "d = DRAFT_FOR_PICK" "v = fetch_job_variables gid"
    by (rule fetch_job_posted)
  have vu: "fetch_job_variables gid \<noteq> JUndefined"
    by (simp add: fetch_job_variables_def)
  have sg: "shopifyGraphQL post DRAFT_FOR_PICK (fetch_job_variables gid) w =
              (Inr (js_member data ''data''),
               w\<lparr>requests := requests w @ [(DRAFT_FOR_PICK, fetch_job_variables gid)]\<rparr>)"
    using shopifyGraphQL_ok [OF _ vu assms(3) assms(4)] assms(2) dv by simp
  from assms(5) have "\<not> truthy (opt (js_member data ''data'') ''draftOrder'')"
    by (auto simp: nullish_def)
  then show ?thesis
    by (simp add: fetch_job_unfold [OF g sg] js_member_def)
qed

theorem fetch_job_not_found_witness:
  "fst (fetch_job (\<lambda>d v. Resolved (JObj [(''data'', JObj [(''draftOrder'', JNull)])]))
         ''999'' no_effects) =
     Inr (json_response 404 (JObj [(''error'', JStr ''Draft not found'')]))"
proof -
  let ?data = "JObj [(''data'', JObj [(''draftOrder'', JNull)])]"
  let ?post = "\<lambda>(d :: gql_doc) (v :: jsval). Resolved ?data"
  have r: "requests (snd (fetch_job ?post ''999'' no_effects)) =
             requests no_effects @ [(DRAFT_FOR_PICK, fetch_job_variables ''gid://shopify/DraftOrder/999'')]"
    by (rule fetch_job_requests) (simp add: toGid_draft_order startsWith_def)
  have n: "\<not> nullish ?data"
    by (simp add: nullish_def)
  have e: "\<not> truthy (js_member ?data ''errors'')"
    by (simp add: js_member_def)
  have u: "nullish (opt (js_member ?data ''data'') ''draftOrder'')"
    by (simp add: opt_def nullish_def js_member_def)
  show ?thesis
    using fetch_job_not_found [where post = ?post and param = "''999''" and w = no_effects
            and d = DRAFT_FOR_PICK and v = "fetch_job_variables ''gid://shopify/DraftOrder/999''"
            and data = ?data,
            OF r _ n e u]
    by simp
qed

end
